theory Spec2Isabelle
  imports Complex_Main "HOL-Library.AList" "HOL-Library.Char_ord" "HOL-Library.List_Lexorder"
begin

section \<open>Python values and exceptions\<close>

text \<open>
  The exceptions that the modelled code paths of \<^verbatim>\<open>CameraController.py\<close> and
  \<^verbatim>\<open>__main__.py\<close> can raise. \<open>HardwareError\<close> stands for whatever the camera
  library raises when the device does not answer (a subclass of \<^verbatim>\<open>Exception\<close>);
  \<open>KeyboardInterrupt\<close> is the one modelled exception that is not.
\<close>

datatype error =
    AttributeError
  | IndexError
  | KeyError string
  | TypeError
  | ZeroDivisionError
  | OSError
  | OverflowError
  | ValueError
  | HardwareError
  | CvError
  | KeyboardInterrupt

section \<open>The closest-value resolver\<close>

text \<open>
  \<^verbatim>\<open>bisect_left(a, x)\<close> of the standard library, with \<open>lo = 0\<close> and
  \<open>hi = len(a)\<close>: the loop halves the interval \<open>[lo, hi)\<close> until it is empty.
\<close>

function bisect_left_loop :: "'a::linorder list \<Rightarrow> 'a \<Rightarrow> nat \<Rightarrow> nat \<Rightarrow> nat" where
  "bisect_left_loop a x lo hi =
     (if lo < hi then
        (let mid = (lo + hi) div 2 in
           if a ! mid < x then bisect_left_loop a x (mid + 1) hi
           else bisect_left_loop a x lo mid)
      else lo)"
  by pat_completeness auto
termination
  by (relation "measure (\<lambda>(a, x, lo, hi). hi - lo)") auto

declare bisect_left_loop.simps [simp del]

definition bisect_left :: "'a::linorder list \<Rightarrow> 'a \<Rightarrow> nat" where
  "bisect_left a x = bisect_left_loop a x 0 (length a)"

text \<open>
  \<^verbatim>\<open>find_closest_exposure(self, ExpList, ExpValue)\<close>, for numbers of any one kind
  (integers, or the rationals when the query is a float). \<^verbatim>\<open>ExpList[0]\<close> on the empty
  list raises \<^verbatim>\<open>IndexError\<close>; \<^verbatim>\<open>ExpList[-1]\<close> is the last element. The locals
  \<^verbatim>\<open>before\<close> and \<^verbatim>\<open>after\<close> are \<open>before_v\<close> and \<open>after_v\<close> here.
\<close>

definition find_closest_exposure :: "'a::linordered_idom list \<Rightarrow> 'a \<Rightarrow> error + 'a" where
  "find_closest_exposure ExpList ExpValue =
     (let pos = bisect_left ExpList ExpValue in
        if pos = 0 then
          (if ExpList = [] then Inl IndexError else Inr (ExpList ! 0))
        else if pos = length ExpList then Inr (last ExpList)
        else
          (let before_v = ExpList ! (pos - 1);
               after_v = ExpList ! pos
           in if after_v - ExpValue < ExpValue - before_v then Inr after_v else Inr before_v))"

text \<open>The preset table of \<^verbatim>\<open>get_MetaData\<close>.\<close>

definition ExpList :: "int list" where
  "ExpList = [250, 313, 400, 500, 625, 800, 1000, 1250, 1563, 2000, 2500, 3125, 4000,
              5000, 6250, 8000, 10000, 12500, 16666, 20000, 25000, 33333]"


section \<open>Configuration values and the configuration dictionary\<close>

text \<open>
  The values that \<^verbatim>\<open>config.json\<close> holds. \<open>PyFloat r\<close> is the finite double whose value
  is the rational \<open>r\<close>.
\<close>

datatype pyval = PyInt int | PyFloat rat | PyStr string | PyBool bool | PyNone

text \<open>
  A \<^verbatim>\<open>dict\<close> in insertion order. \<^verbatim>\<open>d[k]\<close> raises \<^verbatim>\<open>KeyError\<close> on a missing
  key; \<^verbatim>\<open>d[k] = v\<close> replaces the value in place or appends the key.
\<close>

type_synonym pydict = "(string \<times> pyval) list"

definition dict_get :: "pydict \<Rightarrow> string \<Rightarrow> error + pyval" where
  "dict_get d k = (case map_of d k of None \<Rightarrow> Inl (KeyError k) | Some v \<Rightarrow> Inr v)"

definition dict_set :: "string \<Rightarrow> pyval \<Rightarrow> pydict \<Rightarrow> pydict" where
  "dict_set k v d = AList.update k v d"

text \<open>Numeric reading of a value, and Python's \<^verbatim>\<open>==\<close> on configuration values.\<close>

fun num_of :: "pyval \<Rightarrow> error + rat" where
  "num_of (PyInt n) = Inr (of_int n)"
| "num_of (PyFloat r) = Inr r"
| "num_of (PyBool b) = Inr (if b then 1 else 0)"
| "num_of (PyStr _) = Inl TypeError"
| "num_of PyNone = Inl TypeError"

definition py_eq :: "pyval \<Rightarrow> pyval \<Rightarrow> bool" where
  "py_eq a b =
     (case (num_of a, num_of b) of
        (Inr x, Inr y) \<Rightarrow> x = y
      | (Inl _, Inl _) \<Rightarrow> a = b
      | _ \<Rightarrow> False)"

section \<open>Python numbers\<close>

text \<open>
  A Python float is an IEEE 754 double: a finite value, an infinity (\<open>Infinity True\<close> is
  the negative one) or NaN. The sign of a zero is not kept; nothing modelled here reads it.
\<close>

datatype pyfloat = Finite rat | Infinity bool | NaN

text \<open>\<open>ilog2 x\<close> is the exponent \<open>e\<close> with \<open>2\<^sup>e \<le> x < 2\<^sup>e\<^sup>+\<^sup>1\<close>, for a positive \<open>x\<close>.\<close>

function ilog2 :: "rat \<Rightarrow> int" where
  "ilog2 x =
     (if x \<le> 0 then 0
      else if 2 \<le> x then ilog2 (x / 2) + 1
      else if x < 1 then ilog2 (2 * x) - 1
      else 0)"
  by pat_completeness auto
termination
proof (relation "measure (\<lambda>x. if 1 \<le> x then nat \<lfloor>x\<rfloor> else nat \<lceil>1 / x\<rceil>)")
  show "wf (measure (\<lambda>x::rat. if 1 \<le> x then nat \<lfloor>x\<rfloor> else nat \<lceil>1 / x\<rceil>))" by simp
next
  fix x :: rat
  assume a: "\<not> x \<le> 0" "2 \<le> x"
  have "\<lfloor>x / 2\<rfloor> < \<lfloor>x\<rfloor>"
  proof -
    have "x / 2 \<le> x - 1" using a by simp
    then have "\<lfloor>x / 2\<rfloor> \<le> \<lfloor>x - 1\<rfloor>" by (rule floor_mono)
    then show ?thesis by simp
  qed
  moreover have "0 < \<lfloor>x\<rfloor>" using a by simp
  ultimately show "(x / 2, x) \<in> measure (\<lambda>x. if 1 \<le> x then nat \<lfloor>x\<rfloor> else nat \<lceil>1 / x\<rceil>)"
    using a by simp
next
  fix x :: rat
  assume a: "\<not> x \<le> 0" "\<not> 2 \<le> x" "x < 1"
  then have xp: "0 < x" by simp
  have c: "2 \<le> \<lceil>1 / x\<rceil>"
  proof -
    have "1 < 1 / x" using a xp by simp
    then have "1 < \<lceil>1 / x\<rceil>" by (simp add: less_ceiling_iff)
    then show ?thesis by simp
  qed
  show "(2 * x, x) \<in> measure (\<lambda>x. if 1 \<le> x then nat \<lfloor>x\<rfloor> else nat \<lceil>1 / x\<rceil>)"
  proof (cases "1 \<le> 2 * x")
    case True
    then have "\<lfloor>2 * x\<rfloor> = 1" using a by (simp add: floor_eq_iff)
    then have "nat \<lfloor>2 * x\<rfloor> < nat \<lceil>1 / x\<rceil>" using c by linarith
    moreover have "\<not> 1 \<le> x" using a by simp
    ultimately show ?thesis using True unfolding in_measure by (simp only: if_True if_False)
  next
    case False
    then have h: "2 * x < 1" by simp
    have "1 / (2 * x) \<le> 1 / x - 1" using h xp by (simp add: field_simps)
    then have "\<lceil>1 / (2 * x)\<rceil> \<le> \<lceil>1 / x - 1\<rceil>" by (rule ceiling_mono)
    then have "\<lceil>1 / (2 * x)\<rceil> < \<lceil>1 / x\<rceil>" by simp
    moreover have "0 < \<lceil>1 / x\<rceil>" using c by linarith
    ultimately have "nat \<lceil>1 / (2 * x)\<rceil> < nat \<lceil>1 / x\<rceil>" by linarith
    moreover have "\<not> 1 \<le> x" using a by simp
    ultimately show ?thesis using False unfolding in_measure by (simp only: if_False)
  qed
qed

declare ilog2.simps [simp del]

text \<open>Rounding to the nearest integer, a tie to the even one.\<close>

definition round_half_even :: "rat \<Rightarrow> int" where
  "round_half_even x =
     (let f = \<lfloor>x\<rfloor>; d = x - of_int f
      in if d < 1 / 2 then f else if 1 / 2 < d then f + 1 else if even f then f else f + 1)"

text \<open>
  The double nearest to a rational, ties to even: 53 significant bits, no bit below
  \<open>2\<^sup>-\<^sup>1\<^sup>0\<^sup>7\<^sup>4\<close> (the subnormal range), and an infinity from \<open>2\<^sup>1\<^sup>0\<^sup>2\<^sup>4\<close> on.
\<close>

definition round_double :: "rat \<Rightarrow> pyfloat" where
  "round_double x =
     (if x = 0 then Finite 0
      else
        (let e = ilog2 \<bar>x\<bar>;
             q = max (e - 52) (- 1074);
             r = of_int (round_half_even (x / 2 powi q)) * 2 powi q
         in if 2 powi 1024 \<le> \<bar>r\<bar> then Infinity (x < 0) else Finite r))"

text \<open>Addition, multiplication and division of floats: no exception, an overflow is an infinity.\<close>

fun fl_add :: "pyfloat \<Rightarrow> pyfloat \<Rightarrow> pyfloat" where
  "fl_add (Finite x) (Finite y) = round_double (x + y)"
| "fl_add NaN _ = NaN"
| "fl_add _ NaN = NaN"
| "fl_add (Infinity s) (Infinity t) = (if s = t then Infinity s else NaN)"
| "fl_add (Infinity s) (Finite _) = Infinity s"
| "fl_add (Finite _) (Infinity t) = Infinity t"

fun fl_mul :: "pyfloat \<Rightarrow> pyfloat \<Rightarrow> pyfloat" where
  "fl_mul (Finite x) (Finite y) = round_double (x * y)"
| "fl_mul NaN _ = NaN"
| "fl_mul _ NaN = NaN"
| "fl_mul (Infinity s) (Infinity t) = Infinity (s \<noteq> t)"
| "fl_mul (Infinity s) (Finite y) = (if y = 0 then NaN else Infinity (s \<noteq> (y < 0)))"
| "fl_mul (Finite x) (Infinity t) = (if x = 0 then NaN else Infinity (t \<noteq> (x < 0)))"

text \<open>The quotient by a divisor that is not zero.\<close>

fun fl_div :: "pyfloat \<Rightarrow> pyfloat \<Rightarrow> pyfloat" where
  "fl_div (Finite x) (Finite y) = round_double (x / y)"
| "fl_div NaN _ = NaN"
| "fl_div _ NaN = NaN"
| "fl_div (Infinity s) (Infinity t) = NaN"
| "fl_div (Infinity s) (Finite y) = Infinity (s \<noteq> (y < 0))"
| "fl_div (Finite x) (Infinity t) = Finite 0"

text \<open>
  The operands and results of arithmetic: an \<^verbatim>\<open>int\<close> (a \<^verbatim>\<open>bool\<close> is one) or a
  \<^verbatim>\<open>float\<close>. Anything else in an arithmetic position ends in \<^verbatim>\<open>TypeError\<close>.
\<close>

datatype number = IntNum int | FloatNum pyfloat

fun number_of :: "pyval \<Rightarrow> error + number" where
  "number_of (PyInt n) = Inr (IntNum n)"
| "number_of (PyBool b) = Inr (IntNum (if b then 1 else 0))"
| "number_of (PyFloat r) = Inr (FloatNum (Finite r))"
| "number_of (PyStr _) = Inl TypeError"
| "number_of PyNone = Inl TypeError"

text \<open>
  The conversion of an operand to \<^verbatim>\<open>float\<close> in mixed arithmetic: correctly rounded, and
  \<^verbatim>\<open>OverflowError\<close> for an \<^verbatim>\<open>int\<close> too large for a double.
\<close>

fun float_of :: "number \<Rightarrow> error + pyfloat" where
  "float_of (IntNum n) =
     (case round_double (of_int n) of Infinity _ \<Rightarrow> Inl OverflowError | f \<Rightarrow> Inr f)"
| "float_of (FloatNum f) = Inr f"

definition err_bind :: "error + 'a \<Rightarrow> ('a \<Rightarrow> error + 'b) \<Rightarrow> error + 'b" where
  "err_bind m f = (case m of Inl e \<Rightarrow> Inl e | Inr v \<Rightarrow> f v)"

text \<open>\<^verbatim>\<open>x + y\<close> and \<^verbatim>\<open>x * y\<close>: exact on two \<^verbatim>\<open>int\<close>s, in doubles otherwise.\<close>

fun py_add :: "number \<Rightarrow> number \<Rightarrow> error + number" where
  "py_add (IntNum m) (IntNum n) = Inr (IntNum (m + n))"
| "py_add x y =
     err_bind (float_of x) (\<lambda>a. err_bind (float_of y) (\<lambda>b. Inr (FloatNum (fl_add a b))))"

fun py_mul :: "number \<Rightarrow> number \<Rightarrow> error + number" where
  "py_mul (IntNum m) (IntNum n) = Inr (IntNum (m * n))"
| "py_mul x y =
     err_bind (float_of x) (\<lambda>a. err_bind (float_of y) (\<lambda>b. Inr (FloatNum (fl_mul a b))))"

text \<open>
  \<^verbatim>\<open>x / y\<close>: true division. Of two \<^verbatim>\<open>int\<close>s it is the correctly rounded quotient, with
  \<^verbatim>\<open>OverflowError\<close> when that is too large for a double; otherwise both operands are
  converted first. A zero divisor raises \<^verbatim>\<open>ZeroDivisionError\<close>.
\<close>

fun py_truediv :: "number \<Rightarrow> number \<Rightarrow> error + number" where
  "py_truediv (IntNum m) (IntNum n) =
     (if n = 0 then Inl ZeroDivisionError
      else
        (case round_double (of_int m / of_int n) of
           Infinity _ \<Rightarrow> Inl OverflowError
         | f \<Rightarrow> Inr (FloatNum f)))"
| "py_truediv x y =
     err_bind (float_of x) (\<lambda>a. err_bind (float_of y) (\<lambda>b.
       if b = Finite 0 then Inl ZeroDivisionError else Inr (FloatNum (fl_div a b))))"

text \<open>
  \<^verbatim>\<open>int(x)\<close>: a finite float is truncated towards zero; an infinity raises
  \<^verbatim>\<open>OverflowError\<close> and NaN raises \<^verbatim>\<open>ValueError\<close>.
\<close>

definition py_int :: "rat \<Rightarrow> int" where
  "py_int x = (if 0 \<le> x then \<lfloor>x\<rfloor> else \<lceil>x\<rceil>)"

fun int_of_number :: "number \<Rightarrow> error + int" where
  "int_of_number (IntNum n) = Inr n"
| "int_of_number (FloatNum (Finite x)) = Inr (py_int x)"
| "int_of_number (FloatNum (Infinity _)) = Inl OverflowError"
| "int_of_number (FloatNum NaN) = Inl ValueError"

text \<open>The value of a number, when it has one.\<close>

fun number_value :: "number \<Rightarrow> rat option" where
  "number_value (IntNum n) = Some (of_int n)"
| "number_value (FloatNum (Finite x)) = Some x"
| "number_value (FloatNum _) = None"

section \<open>Strings, documents and paths\<close>

text \<open>\<^verbatim>\<open>needle in haystack\<close> on strings.\<close>

fun starts_with :: "string \<Rightarrow> string \<Rightarrow> bool" where
  "starts_with [] _ = True"
| "starts_with (p # ps) [] = False"
| "starts_with (p # ps) (c # cs) = (p = c \<and> starts_with ps cs)"

fun str_contains :: "string \<Rightarrow> string \<Rightarrow> bool" where
  "str_contains needle [] = (needle = [])"
| "str_contains needle (c # cs) = (starts_with needle (c # cs) \<or> str_contains needle cs)"

text \<open>
  \<^verbatim>\<open>json.dumps(new_config, sort_keys=True, ...)\<close>: the document lists the members in
  key order. The text layout (indentation, separators) is not modelled; a document is the
  sequence of its members, and reloading it gives the dictionary with these members.
\<close>

type_synonym json_doc = "(string \<times> pyval) list"

definition json_dumps :: "pydict \<Rightarrow> json_doc" where
  "json_dumps d = sort_key fst d"

definition json_loads :: "json_doc \<Rightarrow> pydict" where
  "json_loads doc = doc"

text \<open>
  \<^verbatim>\<open>os.path.join(module_path, data_path, 'config.json')\<close>: a component that starts with
  a slash discards what precedes it; a non-string component raises \<^verbatim>\<open>TypeError\<close>.
\<close>

definition join2 :: "string \<Rightarrow> string \<Rightarrow> string" where
  "join2 a b =
     (if starts_with ''/'' b then b
      else if a = [] \<or> last a = CHR ''/'' then a @ b
      else a @ ''/'' @ b)"

definition config_path :: "string \<Rightarrow> pyval \<Rightarrow> error + string" where
  "config_path module_path data_path =
     (case data_path of
        PyStr p \<Rightarrow> Inr (join2 (join2 module_path p) ''config.json'')
      | _ \<Rightarrow> Inl TypeError)"

section \<open>Frames, the device and the controller\<close>

text \<open>
  A frame is an array of samples with its colour space and the texts stamped on it.
  \<^verbatim>\<open>cv2.cvtColor\<close> fails on an empty array; \<^verbatim>\<open>cv2.putText\<close> draws in place;
  \<^verbatim>\<open>cv2.imencode\<close> fails on \<^verbatim>\<open>None\<close>. The codec itself is outside the program: an
  encoded image is identified with the frame it encodes.
\<close>

datatype frame = Frame (pixels: "nat list") (is_rgb: bool) (stamps: "string list")

datatype jpeg = Jpeg frame

definition cvtColor :: "frame \<Rightarrow> error + frame" where
  "cvtColor f = (if pixels f = [] then Inl CvError else Inr (Frame (pixels f) True (stamps f)))"

definition putText :: "string \<Rightarrow> frame \<Rightarrow> frame" where
  "putText txt f = Frame (pixels f) (is_rgb f) (stamps f @ [txt])"

definition imencode :: "frame option \<Rightarrow> error + jpeg" where
  "imencode img = (case img of None \<Rightarrow> Inl CvError | Some f \<Rightarrow> Inr (Jpeg f))"

text \<open>
  How the physical camera answers: what \<^verbatim>\<open>Picamera2()\<close> followed by
  \<^verbatim>\<open>camera_properties['Model']\<close> gives, what the coming calls of
  \<^verbatim>\<open>capture_array("lores")\<close> give, one answer for each call in order (a device that has
  no answer left fails the call), what \<^verbatim>\<open>autofocus_cycle()\<close> gives, and what
  \<^verbatim>\<open>time.strftime\<close> prints. The other device calls (\<^verbatim>\<open>configure\<close>, \<^verbatim>\<open>start\<close>,
  \<^verbatim>\<open>stop\<close>, \<^verbatim>\<open>close\<close>, \<^verbatim>\<open>set_controls\<close>, \<^verbatim>\<open>capture_metadata\<close>) are recorded in the
  trace and modelled as returning.
\<close>

record device =
  dev_open :: "error + string"
  dev_lores :: "(error + frame) list"
  dev_af :: "error + bool"
  dev_clock :: string

text \<open>The attributes that the program sets on the \<^verbatim>\<open>Picamera2\<close> object.\<close>

record session =
  lsize :: "(int \<times> int) option"
  mainsize :: "(int \<times> int) option"
  rotation :: "int option"

datatype level = Debug | Info | Warning | Error

text \<open>What the controller does to the outside world, in order.\<close>

datatype event =
    Log level string
  | GPIO_output int bool
  | Picamera2_new
  | Cam_close
  | Cam_stop
  | Cam_start
  | Cam_stop_encoder
  | Cam_configure "int \<times> int" "int \<times> int" bool "int option"
  | Cam_set_controls "(string \<times> pyval) list"
  | Cam_autofocus_cycle
  | Cam_capture_array
  | Cam_capture_metadata
  | Sleep rat
  | File_write string json_doc
  | Subprocess_run "string list"

text \<open>
  The controller object together with the world it acts on: the module flag
  \<^verbatim>\<open>picamera_exists\<close>, the directory of the module, the attributes of \<^verbatim>\<open>self\<close>
  (\<open>stop_event\<close> is whether \<^verbatim>\<open>self._stop_event\<close> is set; \<open>image_attr\<close> is
  \<^verbatim>\<open>self.image\<close>, whose name is taken in HOL), the array store (\<open>arrays\<close>; an array
  reference is an index into it, and \<^verbatim>\<open>None\<close> is \<open>None\<close>), the file system (\<open>files\<close>;
  \<open>unwritable\<close> lists the paths that \<^verbatim>\<open>open(path, 'w')\<close> refuses), the device and the
  trace of effects.
\<close>

record controller =
  picamera_exists :: bool
  module_path :: string
  stop_event :: bool
  config :: pydict
  resolution :: string
  width :: int
  height :: int
  md_width :: int
  md_height :: int
  LED :: string
  timestamp :: int
  sharpness_mode :: string
  sharpness_val :: int
  camera :: "session option"
  camera_model :: string
  rotated_camera :: bool
  af_enabled :: bool
  af_enable :: pyval
  exposure_mode :: "string option"
  frame_duration :: int
  yuvimage :: "nat option"
  image_attr :: "nat option"
  picamera_md_output :: "nat option"
  arrays :: "frame list"
  files :: "string \<rightharpoonup> json_doc"
  unwritable :: "string list"
  hw :: device
  trace :: "event list"

text \<open>A call returns a value or raises; either way it leaves a state behind.\<close>

datatype 'a outcome = Returned 'a controller | Raised error controller

fun state_of :: "'a outcome \<Rightarrow> controller" where
  "state_of (Returned _ s) = s"
| "state_of (Raised _ s) = s"

definition and_then :: "'a outcome \<Rightarrow> ('a \<Rightarrow> controller \<Rightarrow> 'b outcome) \<Rightarrow> 'b outcome" where
  "and_then m f = (case m of Returned v s \<Rightarrow> f v s | Raised e s \<Rightarrow> Raised e s)"

definition emit :: "event \<Rightarrow> controller \<Rightarrow> controller" where
  "emit e s = s\<lparr>trace := trace s @ [e]\<rparr>"

definition logger :: "level \<Rightarrow> string \<Rightarrow> controller \<Rightarrow> controller" where
  "logger l msg s = emit (Log l msg) s"

text \<open>A new array in the store; the reference returned is fresh.\<close>

definition alloc :: "frame \<Rightarrow> controller \<Rightarrow> nat \<times> controller" where
  "alloc f s = (length (arrays s), s\<lparr>arrays := arrays s @ [f]\<rparr>)"

text \<open>
  \<^verbatim>\<open>self.camera.capture_array("lores")\<close> on an open session: the call is recorded and the
  device gives its next answer.
\<close>

definition capture_array :: "controller \<Rightarrow> frame outcome" where
  "capture_array s =
     (let s1 = emit Cam_capture_array s in
        case dev_lores (hw s1) of
          [] \<Rightarrow> Raised HardwareError s1
        | r # rest \<Rightarrow>
            (let s2 = s1\<lparr>hw := (hw s1)\<lparr>dev_lores := rest\<rparr>\<rparr> in
               case r of Inl e \<Rightarrow> Raised e s2 | Inr f \<Rightarrow> Returned f s2))"

text \<open>The file writes among a sequence of events.\<close>

fun writes :: "event list \<Rightarrow> (string \<times> json_doc) list" where
  "writes [] = []"
| "writes (File_write p doc # es) = (p, doc) # writes es"
| "writes (_ # es) = writes es"

section \<open>The configuration store\<close>

text \<open>
  \<^verbatim>\<open>update_config(new_config, config_path)\<close>: writes the document and returns its first
  argument.
\<close>

definition update_config :: "pydict \<Rightarrow> string \<Rightarrow> controller \<Rightarrow> pydict outcome" where
  "update_config new_config path s =
     (if path \<in> set (unwritable s) then Raised OSError s
      else Returned new_config
             (emit (File_write path (json_dumps new_config))
                (s\<lparr>files := (files s)(path \<mapsto> json_dumps new_config)\<rparr>)))"

text \<open>
  The tail shared by every setter:
  \<^verbatim>\<open>self.config = self.update_config(new_config, os.path.join(module_path,
  self.config["data_path"], 'config.json'))\<close>. \<^verbatim>\<open>new_config\<close> is an alias of
  \<^verbatim>\<open>self.config\<close>, so the assignments to \<^verbatim>\<open>new_config[...]\<close> made before have changed
  \<^verbatim>\<open>self.config\<close> already, also when the lookup or the write raises.
\<close>

definition rewrite_config :: "pydict \<Rightarrow> controller \<Rightarrow> unit outcome" where
  "rewrite_config new_config s =
     (let s1 = s\<lparr>config := new_config\<rparr> in
        case dict_get (config s1) ''data_path'' of
          Inl e \<Rightarrow> Raised e s1
        | Inr dp \<Rightarrow>
            (case config_path (module_path s1) dp of
               Inl e \<Rightarrow> Raised e s1
             | Inr path \<Rightarrow>
                 and_then (update_config new_config path s1)
                   (\<lambda>c s2. Returned () (s2\<lparr>config := c\<rparr>))))"

text \<open>
  Lines 327--331 and 339--343 of \<^verbatim>\<open>set_camera_rotation\<close>: set the rotation attribute,
  stop, configure with the flip transform, start. Every access to \<^verbatim>\<open>self.camera\<close>
  raises \<^verbatim>\<open>AttributeError\<close> when it is \<^verbatim>\<open>None\<close> or when the attribute read was never
  set.
\<close>

definition reconfigure_rotation :: "int \<Rightarrow> controller \<Rightarrow> unit outcome" where
  "reconfigure_rotation deg s =
     (case camera s of
        None \<Rightarrow> Raised AttributeError s
      | Some cam \<Rightarrow>
          (let s1 = emit Cam_stop (s\<lparr>camera := Some (cam\<lparr>rotation := Some deg\<rparr>)\<rparr>) in
             case (mainsize cam, lsize cam) of
               (Some m, Some l) \<Rightarrow>
                 Returned () (emit Cam_start (emit (Cam_configure m l (rotated_camera s1) None) s1))
             | _ \<Rightarrow> Raised AttributeError s1))"

definition set_camera_rotation :: "bool \<Rightarrow> controller \<Rightarrow> unit outcome" where
  "set_camera_rotation rot s =
     (if rotated_camera s \<noteq> rot then
        (let s1 = s\<lparr>rotated_camera := rot\<rparr> in
           if rotated_camera s1 then
             and_then (if picamera_exists s1 then reconfigure_rotation 180 s1 else Returned () s1)
               (\<lambda>_ s2. rewrite_config (dict_set ''rotate_camera'' (PyInt 1) (config s2)) s2)
           else
             and_then (if picamera_exists s1 then reconfigure_rotation 0 s1 else Returned () s1)
               (\<lambda>_ s2. rewrite_config (dict_set ''rotate_camera'' (PyInt 0) (config s2)) s2))
      else Returned () s)"

definition set_exposure :: "pyval \<Rightarrow> pyval \<Rightarrow> controller \<Rightarrow> unit outcome" where
  "set_exposure ExposureTime AnalogueGain s =
     (if picamera_exists s then
        (case camera s of
           None \<Rightarrow> Raised AttributeError s
         | Some _ \<Rightarrow>
             (let s1 = emit (Cam_set_controls [(''ExposureTime'', ExposureTime),
                                               (''AnalogueGain'', AnalogueGain),
                                               (''AwbMode'', PyStr ''Auto'')]) s;
                  s2 = s1\<lparr>exposure_mode := Some ''off''\<rparr>;
                  s3 = emit (Sleep (1 / 2)) s2
              in rewrite_config
                   (dict_set ''exposure_mode'' (PyStr ''off'')
                      (dict_set ''shutter_speed'' ExposureTime (config s3))) s3))
      else Returned () s)"

definition auto_exposure :: "controller \<Rightarrow> unit outcome" where
  "auto_exposure s =
     (if picamera_exists s then
        (let s1 = s\<lparr>exposure_mode := Some ''auto''\<rparr> in
           case camera s1 of
             None \<Rightarrow> Raised AttributeError s1
           | Some _ \<Rightarrow>
               (let s2 = emit (Cam_set_controls [(''ExposureTime'', PyInt 0),
                                                 (''AnalogueGain'', PyInt 0),
                                                 (''AwbMode'', PyStr ''Auto'')]) s1
                in rewrite_config (dict_set ''exposure_mode'' (PyStr ''auto'') (config s2)) s2))
      else Returned () s)"

definition restart_service :: "controller \<Rightarrow> controller" where
  "restart_service s =
     emit (Subprocess_run [''sudo'', ''systemctl'', ''restart'', ''python.naturewatch.service'']) s"

definition set_resolution :: "string \<Rightarrow> controller \<Rightarrow> unit outcome" where
  "set_resolution res s =
     (if resolution s \<noteq> res then
        (let s1 = s\<lparr>resolution := res\<rparr> in
           if res = ''1640x1232'' then
             and_then
               (rewrite_config
                  (dict_set ''img_width'' (PyInt 1640)
                     (dict_set ''img_height'' (PyInt 1232)
                        (dict_set ''resolution'' (PyStr ''1640x1232'') (config s1)))) s1)
               (\<lambda>_ s2. Returned () (restart_service s2))
           else
             and_then
               (rewrite_config
                  (dict_set ''img_width'' (PyInt 1920)
                     (dict_set ''img_height'' (PyInt 1080)
                        (dict_set ''resolution'' (PyStr ''1920x1080'') (config s1)))) s1)
               (\<lambda>_ s2. Returned () (restart_service s2)))
      else Returned () s)"

definition set_LED :: "string \<Rightarrow> controller \<Rightarrow> unit outcome" where
  "set_LED led s =
     (if LED s \<noteq> led then
        (let s1 = s\<lparr>LED := led\<rparr> in
           if led = ''off'' then
             (let s2 = logger Debug ''CameraController: LED disabled'' (emit (GPIO_output 16 False) s1)
              in rewrite_config (dict_set ''LED'' (PyStr ''off'') (config s2)) s2)
           else
             (let s2 = logger Debug ''CameraController: LED enabled'' (emit (GPIO_output 16 True) s1)
              in rewrite_config (dict_set ''LED'' (PyStr ''on'') (config s2)) s2))
      else Returned () s)"

definition set_TimestampMode :: "string \<Rightarrow> controller \<Rightarrow> unit outcome" where
  "set_TimestampMode ts s =
     (if ts = ''off'' then
        (let s1 = logger Debug ''CameraController: Timestamps disabled'' (s\<lparr>timestamp := 0\<rparr>)
         in rewrite_config (dict_set ''timestamp'' (PyStr ''off'') (config s1)) s1)
      else
        (let s1 = logger Debug ''CameraController: Timestamps enabled'' (s\<lparr>timestamp := 1\<rparr>)
         in rewrite_config (dict_set ''timestamp'' (PyStr ''on'') (config s1)) s1))"

text \<open>
  \<^verbatim>\<open>set_sharpness(sharpness_val, sharpness_mode)\<close>, with the value an integer (as
  \<^verbatim>\<open>initialise_picamera\<close> passes it), so that \<^verbatim>\<open>int(sharpness_val)\<close> is the value itself.
  In the automatic mode the local value becomes 1 and \<^verbatim>\<open>self.sharpness_val\<close> is left as
  it was. \<^verbatim>\<open>self.camera.set_controls\<close> is not guarded by \<^verbatim>\<open>picamera_exists\<close>.
\<close>

definition set_sharpness :: "int \<Rightarrow> string \<Rightarrow> controller \<Rightarrow> unit outcome" where
  "set_sharpness val mode s =
     (let s1 = s\<lparr>sharpness_mode := mode\<rparr>;
          v = (if sharpness_mode s1 = ''auto'' then 1 else val);
          s2 = (if sharpness_mode s1 = ''auto'' then s1 else s1\<lparr>sharpness_val := val\<rparr>)
      in case camera s2 of
           None \<Rightarrow> Raised AttributeError s2
         | Some _ \<Rightarrow>
             (let s3 = emit (Cam_set_controls [(''Sharpness'', PyInt v)]) s2;
                  s4 = logger Debug ''CameraController: Sharpness set'' s3
              in rewrite_config
                   (dict_set ''sharpness_mode'' (PyStr mode)
                      (dict_set ''sharpness_val'' (PyInt v) (config s4))) s4))"

text \<open>The seven setters of the configuration store, as a caller may invoke them.\<close>

datatype setter_call =
    Set_camera_rotation bool
  | Set_exposure pyval pyval
  | Auto_exposure
  | Set_resolution string
  | Set_LED string
  | Set_TimestampMode string
  | Set_sharpness int string

fun call_setter :: "setter_call \<Rightarrow> controller \<Rightarrow> unit outcome" where
  "call_setter (Set_camera_rotation r) s = set_camera_rotation r s"
| "call_setter (Set_exposure t g) s = set_exposure t g s"
| "call_setter Auto_exposure s = auto_exposure s"
| "call_setter (Set_resolution r) s = set_resolution r s"
| "call_setter (Set_LED l) s = set_LED l s"
| "call_setter (Set_TimestampMode t) s = set_TimestampMode t s"
| "call_setter (Set_sharpness v m) s = set_sharpness v m s"

text \<open>The record that the store holds for the controller, reloaded.\<close>

definition persisted_config :: "controller \<Rightarrow> pydict option" where
  "persisted_config s =
     (case dict_get (config s) ''data_path'' of
        Inl _ \<Rightarrow> None
      | Inr dp \<Rightarrow>
          (case config_path (module_path s) dp of
             Inl _ \<Rightarrow> None
           | Inr path \<Rightarrow> map_option json_loads (files s path)))"

text \<open>
  Whether a call of a setter reaches its call of \<^verbatim>\<open>update_config\<close>:
  \<^verbatim>\<open>set_camera_rotation\<close>, \<^verbatim>\<open>set_resolution\<close> and \<^verbatim>\<open>set_LED\<close> under
  \<^verbatim>\<open>if self.<attribute> != <argument>\<close>, \<^verbatim>\<open>set_exposure\<close> and \<^verbatim>\<open>auto_exposure\<close> under
  \<^verbatim>\<open>if picamera_exists\<close>, \<^verbatim>\<open>set_TimestampMode\<close> and \<^verbatim>\<open>set_sharpness\<close> always.
\<close>

fun takes_writing_path :: "setter_call \<Rightarrow> controller \<Rightarrow> bool" where
  "takes_writing_path (Set_camera_rotation r) s = (rotated_camera s \<noteq> r)"
| "takes_writing_path (Set_exposure t g) s = picamera_exists s"
| "takes_writing_path Auto_exposure s = picamera_exists s"
| "takes_writing_path (Set_resolution r) s = (resolution s \<noteq> r)"
| "takes_writing_path (Set_LED l) s = (LED s \<noteq> l)"
| "takes_writing_path (Set_TimestampMode t) s = True"
| "takes_writing_path (Set_sharpness v m) s = True"

section \<open>The camera session\<close>

text \<open>The loop of \<^verbatim>\<open>run_autofocus\<close>: \<^verbatim>\<open>while not success and i < 5: i+=1; time.sleep(1)\<close>.\<close>

function af_wait :: "bool \<Rightarrow> nat \<Rightarrow> controller \<Rightarrow> controller" where
  "af_wait success i s =
     (if \<not> success \<and> i < 5 then af_wait success (i + 1) (emit (Sleep 1) s) else s)"
  by pat_completeness auto
termination
  by (relation "measure (\<lambda>(success, i, s). 5 - i)") auto

declare af_wait.simps [simp del]

definition run_autofocus :: "controller \<Rightarrow> unit outcome" where
  "run_autofocus s =
     (if af_enabled s then
        (case camera s of
           None \<Rightarrow> Raised AttributeError s
         | Some _ \<Rightarrow>
             (let s1 = emit Cam_autofocus_cycle s in
                case dev_af (hw s1) of
                  Inl e \<Rightarrow> Raised e s1
                | Inr success \<Rightarrow>
                    (let s2 = af_wait success 0 s1 in
                       if success then
                         Returned ()
                           (logger Debug
                              ''CameraController: autofocus routine completed successfully'' s2)
                       else
                         Returned ()
                           (logger Debug ''CameraController: autofocus routine timed out'' s2))))
      else Returned () s)"

text \<open>\<^verbatim>\<open>initialise_picamera\<close>, lines 235--256: close, reopen, read the model, set the LED.\<close>

definition open_camera :: "controller \<Rightarrow> unit outcome" where
  "open_camera s =
     (let s0 = logger Debug ''CameraController: initialising picamera ...'' s;
          s1 = (case camera s0 of None \<Rightarrow> s0 | Some _ \<Rightarrow> emit Cam_close s0);
          s2 = emit Picamera2_new s1
      in case dev_open (hw s2) of
           Inl e \<Rightarrow> Raised e s2
         | Inr model \<Rightarrow>
             (let s3 = s2\<lparr>camera := Some \<lparr>lsize = None, mainsize = None, rotation = None\<rparr>,
                          camera_model := model\<rparr>;
                  s4 = logger Debug ''CameraController: camera module revision detected.'' s3
              in if LED s4 = ''off'' then
                   Returned ()
                     (logger Debug ''CameraController: LED disabled'' (emit (GPIO_output 16 False) s4))
                 else
                   Returned ()
                     (logger Debug ''CameraController: LED enabled'' (emit (GPIO_output 16 True) s4))))"

text \<open>Lines 258--273: frame duration, rotation flag, stream sizes, configure, start.\<close>

definition configure_camera :: "controller \<Rightarrow> unit outcome" where
  "configure_camera s =
     (case dict_get (config s) ''frame_rate'' of
        Inl e \<Rightarrow> Raised e s
      | Inr fr \<Rightarrow>
          (case err_bind (number_of fr) (\<lambda>n.
                  err_bind (py_truediv (IntNum 1000000) n) int_of_number) of
             Inl e \<Rightarrow> Raised e s
           | Inr d \<Rightarrow>
               (let s1 = s\<lparr>frame_duration := d\<rparr> in
                  case dict_get (config s1) ''rotate_camera'' of
                    Inl e \<Rightarrow> Raised e s1
                  | Inr rc \<Rightarrow>
                      (let s2 = s1\<lparr>rotated_camera := py_eq rc (PyInt 1)\<rparr> in
                         case camera s2 of
                           None \<Rightarrow> Raised AttributeError s2
                         | Some cam \<Rightarrow>
                             (let s3 = s2\<lparr>camera :=
                                          Some (cam\<lparr>lsize := Some (md_width s2, md_height s2),
                                                    mainsize := Some (width s2, height s2)\<rparr>)\<rparr>
                              in Returned ()
                                   (emit Cam_start
                                      (emit (Cam_configure (width s3, height s3)
                                               (md_width s3, md_height s3) (rotated_camera s3)
                                               (Some (frame_duration s3))) s3)))))))"

text \<open>Lines 275--286: the exposure mode of the configuration, applied to the new session.\<close>

definition apply_exposure_mode :: "controller \<Rightarrow> unit outcome" where
  "apply_exposure_mode s =
     and_then
       (case dict_get (config s) ''exposure_mode'' of
          Inl e \<Rightarrow> Raised e s
        | Inr em \<Rightarrow>
            if py_eq em (PyStr ''auto'') then
              Returned ()
                (logger Info ''Initialising with automatic exposure time.''
                   (s\<lparr>exposure_mode := Some ''auto''\<rparr>))
            else
              (let s1 = s\<lparr>exposure_mode := Some ''off''\<rparr> in
                 case dict_get (config s1) ''shutter_speed'' of
                   Inl e \<Rightarrow> Raised e s1
                 | Inr ss \<Rightarrow>
                     (let s2 = logger Info ''Initialising with exposure time'' s1 in
                        case dict_get (config s2) ''analogue_gain'' of
                          Inl e \<Rightarrow> Raised e s2
                        | Inr ag \<Rightarrow>
                            set_exposure ss ag
                              (logger Info ''Initialising with analogue gain'' s2))))
       (\<lambda>_ s3.
          Returned ()
            (logger Info ''CameraController: Note that frame rates above 20fps have been found to lock up the Pi Zero W and Pi Zero 2W''
               (logger Info ''CameraController: camera initialised'' (emit Cam_capture_metadata s3))))"

text \<open>Lines 288--291: one low-resolution frame for the motion detector.\<close>

definition prepare_md_stream :: "controller \<Rightarrow> unit outcome" where
  "prepare_md_stream s =
     and_then (capture_array s) (\<lambda>f s1.
       (let (a, s2) = alloc f s1 in
          case cvtColor f of
            Inl e \<Rightarrow> Raised e s2
          | Inr g \<Rightarrow>
              (let (b, s3) = alloc g s2 in
                 Returned ()
                   (logger Debug ''CameraController: Motion detection stream prepared''
                      (s3\<lparr>picamera_md_output := Some b\<rparr>)))))"

text \<open>Lines 295--301: autofocus, when configured and when the sensor is an imx708.\<close>

definition setup_autofocus :: "controller \<Rightarrow> unit outcome" where
  "setup_autofocus s =
     (case dict_get (config s) ''af_enable'' of
        Inl e \<Rightarrow> Raised e s
      | Inr af \<Rightarrow>
          (let s1 = s\<lparr>af_enable := af\<rparr> in
             if py_eq (af_enable s1) (PyInt 1) then
               (if str_contains ''imx708'' (camera_model s1) then
                  run_autofocus
                    (emit (Cam_set_controls [(''AfMode'', PyStr ''Auto'')])
                       (s1\<lparr>af_enabled := True\<rparr>))
                else Returned () s1)
             else Returned () s1))"

definition initialise_picamera :: "controller \<Rightarrow> unit outcome" where
  "initialise_picamera s =
     and_then (open_camera s) (\<lambda>_ s1.
     and_then (configure_camera s1) (\<lambda>_ s2.
     and_then (apply_exposure_mode s2) (\<lambda>_ s3.
     and_then (prepare_md_stream s3) (\<lambda>_ s4.
     and_then (setup_autofocus s4) (\<lambda>_ s5.
       set_sharpness (sharpness_val s5) (sharpness_mode s5) s5)))))"

section \<open>The capture loop\<close>

definition is_stopped :: "controller \<Rightarrow> bool" where
  "is_stopped s = stop_event s"

definition stop :: "controller \<Rightarrow> unit outcome" where
  "stop s =
     (let s1 = s\<lparr>stop_event := True\<rparr> in
        and_then
          (if picamera_exists s1 then
             (case camera s1 of
                None \<Rightarrow> Raised AttributeError s1
              | Some _ \<Rightarrow>
                  Returned ()
                    ((emit Cam_close (emit Cam_stop (emit Cam_stop_encoder s1)))\<lparr>camera := None\<rparr>))
           else Returned () s1)
          (\<lambda>_ s2. Returned () (logger Info ''CameraController: stopping ...'' s2)))"

text \<open>
  The body of the inner \<^verbatim>\<open>try\<close> of \<^verbatim>\<open>run\<close> (lines 132--139): pull a frame, convert it,
  publish it in \<^verbatim>\<open>self.image\<close>, stamp it in place, sleep.
\<close>

definition capture_frame :: "controller \<Rightarrow> unit outcome" where
  "capture_frame s =
     (case camera s of
        None \<Rightarrow> Raised AttributeError s
      | Some _ \<Rightarrow>
          and_then (capture_array s) (\<lambda>f s1.
            (let (a, s2) = alloc f s1;
                 s3 = s2\<lparr>yuvimage := Some a\<rparr>
             in case cvtColor f of
                  Inl e \<Rightarrow> Raised e s3
                | Inr g \<Rightarrow>
                    (let (b, s4) = alloc g s3;
                         s5 = s4\<lparr>image_attr := Some b\<rparr>;
                         s6 = (if timestamp s5 = 1 then
                                 s5\<lparr>arrays := (arrays s5)
                                       [b := putText (dev_clock (hw s5)) (arrays s5 ! b)]\<rparr>
                               else s5);
                         s7 = (if image_attr s6 = None then
                                 logger Warning ''CameraController: got empty image.'' s6
                               else s6)
                     in Returned () (emit (Sleep (1 / 100)) s7)))))"

text \<open>\<^verbatim>\<open>except Exception\<close> catches every modelled exception but \<^verbatim>\<open>KeyboardInterrupt\<close>.\<close>

definition is_Exception :: "error \<Rightarrow> bool" where
  "is_Exception e = (e \<noteq> KeyboardInterrupt)"

text \<open>
  One pass through the body of \<^verbatim>\<open>while not self.is_stopped()\<close> (lines 128--146). The
  handler of the inner \<^verbatim>\<open>try\<close> logs twice, calls \<^verbatim>\<open>initialise_picamera\<close> and sleeps;
  what it raises itself passes to the outer \<^verbatim>\<open>try\<close>, which handles only
  \<^verbatim>\<open>KeyboardInterrupt\<close>, by evaluating \<^verbatim>\<open>self.logger.i\<close>: a logger has no attribute
  \<^verbatim>\<open>i\<close>, so that handler raises \<^verbatim>\<open>AttributeError\<close>.
\<close>

definition run_iteration :: "controller \<Rightarrow> unit outcome" where
  "run_iteration s =
     (let r = (if picamera_exists s then
                 (case capture_frame s of
                    Returned v s1 \<Rightarrow> Returned v s1
                  | Raised e s1 \<Rightarrow>
                      if is_Exception e then
                        and_then
                          (initialise_picamera
                             (logger Error ''exception''
                                (logger Error ''CameraController: picamera error.'' s1)))
                          (\<lambda>_ s2. Returned () (emit (Sleep (1 / 50)) s2))
                      else Raised e s1)
               else Returned () s)
      in case r of
           Raised e s1 \<Rightarrow> if e = KeyboardInterrupt then Raised AttributeError s1 else Raised e s1
         | Returned v s1 \<Rightarrow> Returned v s1)"

text \<open>
  What happens around the loop while it runs: before each pass the device may answer
  differently, or another thread may call \<^verbatim>\<open>stop()\<close>. The list of these steps is the
  time the loop is observed for: \<open>Still_running\<close> says that the loop has neither
  returned nor raised when the list is used up.
\<close>

datatype env_step = Device device | Stop_call

fun env_apply :: "env_step \<Rightarrow> controller \<Rightarrow> controller" where
  "env_apply (Device d) s = s\<lparr>hw := d\<rparr>"
| "env_apply Stop_call s = state_of (stop s)"

datatype run_result = Run_returned controller | Run_raised error controller | Still_running controller

fun run :: "env_step list \<Rightarrow> controller \<Rightarrow> run_result" where
  "run [] s = (if is_stopped s then Run_returned s else Still_running s)"
| "run (e # es) s =
     (if is_stopped s then Run_returned s
      else
        (case run_iteration (env_apply e s) of
           Returned _ s1 \<Rightarrow> run es s1
         | Raised err s1 \<Rightarrow> Run_raised err s1))"

section \<open>Readers of the preview frame\<close>

text \<open>
  \<^verbatim>\<open>get_md_image\<close>: \<^verbatim>\<open>self.image.copy()\<close> is a new array with the same contents; with
  no image the function falls off its end and returns \<^verbatim>\<open>None\<close>. A reference held by
  the controller always points into the array store.
\<close>

definition get_md_image :: "controller \<Rightarrow> nat option outcome" where
  "get_md_image s =
     (case image_attr s of
        None \<Rightarrow> Returned None s
      | Some a \<Rightarrow> (let (b, s1) = alloc (arrays s ! a) s in Returned (Some b) s1))"

definition get_image_binary :: "controller \<Rightarrow> jpeg outcome" where
  "get_image_binary s =
     and_then (get_md_image s) (\<lambda>r s1.
       case imencode (map_option (\<lambda>b. arrays s1 ! b) r) of
         Inl e \<Rightarrow> Raised e s1
       | Inr buf \<Rightarrow> Returned buf s1)"

text \<open>A caller writing through a reference it holds.\<close>

definition mutate :: "nat \<Rightarrow> (frame \<Rightarrow> frame) \<Rightarrow> controller \<Rightarrow> controller" where
  "mutate b g s = s\<lparr>arrays := (arrays s)[b := g (arrays s ! b)]\<rparr>"

section \<open>The circular video buffer\<close>

text \<open>
  Line 119 of \<^verbatim>\<open>__init__\<close>:
  \<^verbatim>\<open>int(config["frame_rate"] * (config["video_duration_before_motion"] +
  config["video_duration_after_motion"] + 0.5))\<close>. The three lookups come first, then the two
  additions, then the product, then \<^verbatim>\<open>int\<close>. (Two strings would be concatenated by the
  first addition, and the second would raise the \<^verbatim>\<open>TypeError\<close> that the model raises at
  the first.)
\<close>

definition video_buffer_size :: "pydict \<Rightarrow> error + int" where
  "video_buffer_size c =
     err_bind (dict_get c ''frame_rate'') (\<lambda>fr.
     err_bind (dict_get c ''video_duration_before_motion'') (\<lambda>before_v.
     err_bind (dict_get c ''video_duration_after_motion'') (\<lambda>after_v.
     err_bind (number_of before_v) (\<lambda>b.
     err_bind (number_of after_v) (\<lambda>a.
     err_bind (py_add b a) (\<lambda>t1.
     err_bind (py_add t1 (FloatNum (Finite (1 / 2)))) (\<lambda>t2.
     err_bind (number_of fr) (\<lambda>f.
     err_bind (py_mul f t2) int_of_number))))))))"

section \<open>Startup\<close>

text \<open>
  The exceptions that reach the handler of \<^verbatim>\<open>__main__\<close>, with their message, and the
  application that is run in the end.
\<close>

datatype startup_exception = Startup_error string | CameraNotFoundException string

fun str_of :: "startup_exception \<Rightarrow> string" where
  "str_of (Startup_error msg) = msg"
| "str_of (CameraNotFoundException msg) = msg"

datatype app = App | Error_app startup_exception

definition is_space :: "char \<Rightarrow> bool" where
  "is_space c = (c \<in> set [CHR '' '', CHR 0x09, CHR 0x0A, CHR 0x0B, CHR 0x0C, CHR 0x0D])"

definition strip :: "string \<Rightarrow> string" where
  "strip s = rev (dropWhile is_space (rev (dropWhile is_space s)))"

text \<open>
  \<^verbatim>\<open>is_camera_enabled()\<close> returns the stripped output of
  \<^verbatim>\<open>libcamera-hello --list-cameras | grep -c "0 : imx"\<close>, a string; the argument is what
  \<^verbatim>\<open>grep\<close> printed.
\<close>

definition is_camera_enabled :: "string \<Rightarrow> string" where
  "is_camera_enabled grep_stdout = strip grep_stdout"

text \<open>
  \<^verbatim>\<open>isinstance(e)\<close>: the builtin takes exactly two arguments, so the call with one
  raises \<^verbatim>\<open>TypeError\<close> whatever \<^verbatim>\<open>e\<close> is.
\<close>

definition isinstance_one_arg :: "startup_exception \<Rightarrow> error + bool" where
  "isinstance_one_arg e = Inl TypeError"

text \<open>
  The \<^verbatim>\<open>try\<close> statement of \<^verbatim>\<open>__main__\<close> (lines 20--33): \<open>raised\<close> is what the body
  raised, if it did. An exception of the handler itself leaves the program.
\<close>

definition main_block :: "startup_exception option \<Rightarrow> string \<Rightarrow> error + app" where
  "main_block raised grep_stdout =
     (case raised of
        None \<Rightarrow> Inr App
      | Some e \<Rightarrow>
          (case isinstance_one_arg e of
             Inl err \<Rightarrow> Inl err
           | Inr b \<Rightarrow>
               if b \<and> str_contains ''Camera is not enabled'' (str_of e) then
                 (if is_camera_enabled grep_stdout \<noteq> [] then
                    Inr (Error_app (CameraNotFoundException
                           ''Unable to access camera. Is the cable properly connected?''))
                  else Inr (Error_app e))
               else Inr (Error_app e)))"

section \<open>Observations\<close>

text \<open>The exception that ended the loop, if one did, and the state the loop is in.\<close>

fun run_error :: "run_result \<Rightarrow> error option" where
  "run_error (Run_raised e _) = Some e"
| "run_error _ = None"

fun run_state :: "run_result \<Rightarrow> controller" where
  "run_state (Run_returned s) = s"
| "run_state (Run_raised _ s) = s"
| "run_state (Still_running s) = s"

text \<open>A field of the record that the store holds for the controller.\<close>

definition persisted_field :: "controller \<Rightarrow> string \<Rightarrow> pyval option" where
  "persisted_field s k = (case persisted_config s of None \<Rightarrow> None | Some d \<Rightarrow> map_of d k)"

text \<open>How often a trace releases the camera session (\<^verbatim>\<open>camera.close()\<close>).\<close>

definition session_releases :: "event list \<Rightarrow> nat" where
  "session_releases tr = length (filter (\<lambda>e. e = Cam_close) tr)"

section \<open>Concrete states\<close>

definition example_config :: pydict where
  "example_config =
     [(''resolution'', PyStr ''1920x1080''), (''img_width'', PyInt 1920),
      (''img_height'', PyInt 1080), (''LED'', PyStr ''on''), (''timestamp'', PyStr ''on''),
      (''sharpness_mode'', PyStr ''manual''), (''sharpness_val'', PyInt 2),
      (''frame_rate'', PyInt 20), (''video_duration_before_motion'', PyInt 5),
      (''video_duration_after_motion'', PyInt 3), (''rotate_camera'', PyInt 0),
      (''exposure_mode'', PyStr ''auto''), (''shutter_speed'', PyInt 0),
      (''analogue_gain'', PyFloat 1), (''af_enable'', PyInt 1), (''data_path'', PyStr ''data'')]"

definition good_device :: device where
  "good_device = \<lparr>dev_open = Inr ''imx708'',
                  dev_lores = [Inr (Frame [1, 2, 3] False []), Inr (Frame [4, 5, 6] False [])],
                  dev_af = Inr True, dev_clock = ''01/01/2024 00:00:00''\<rparr>"

text \<open>A camera whose cable has come loose: no frame, and no new session either.\<close>

definition unplugged_device :: device where
  "unplugged_device = \<lparr>dev_open = Inl HardwareError, dev_lores = [Inl HardwareError],
                       dev_af = Inl HardwareError, dev_clock = ''01/01/2024 00:00:01''\<rparr>"

text \<open>A camera that fails one frame and then answers again.\<close>

definition glitching_device :: device where
  "glitching_device = \<lparr>dev_open = Inr ''imx708'',
                       dev_lores = [Inl HardwareError, Inr (Frame [7, 8, 9] False []),
                                    Inr (Frame [1, 2, 3] False [])],
                       dev_af = Inr True, dev_clock = ''01/01/2024 00:00:02''\<rparr>"

text \<open>An interrupt that arrives while the loop pulls a frame.\<close>

definition interrupted_device :: device where
  "interrupted_device = \<lparr>dev_open = Inr ''imx708'', dev_lores = [Inl KeyboardInterrupt],
                         dev_af = Inr True, dev_clock = ''01/01/2024 00:00:03''\<rparr>"

text \<open>
  Settings with a very long window, and settings with a window of 1.2 seconds (the double
  nearest to 1.2).
\<close>

definition long_window_config :: pydict where
  "long_window_config =
     [(''frame_rate'', PyInt 3), (''video_duration_before_motion'', PyInt 9007199254740992),
      (''video_duration_after_motion'', PyInt 0)]"

definition fractional_window_config :: pydict where
  "fractional_window_config =
     [(''frame_rate'', PyInt 10),
      (''video_duration_before_motion'', PyFloat (5404319552844595 / 4503599627370496)),
      (''video_duration_after_motion'', PyInt 0)]"

text \<open>A controller with an open session, as it is while the loop runs.\<close>

definition running_state :: controller where
  "running_state =
     \<lparr>picamera_exists = True, module_path = ''/opt/naturewatch'', stop_event = False,
      config = example_config, resolution = ''1920x1080'', width = 1920, height = 1080,
      md_width = 320, md_height = 180, LED = ''on'', timestamp = 1,
      sharpness_mode = ''manual'', sharpness_val = 2,
      camera = Some \<lparr>lsize = Some (320, 180), mainsize = Some (1920, 1080), rotation = None\<rparr>,
      camera_model = ''imx708'', rotated_camera = False, af_enabled = True,
      af_enable = PyInt 1, exposure_mode = Some ''auto'', frame_duration = 50000,
      yuvimage = Some 0, image_attr = Some 1, picamera_md_output = None,
      arrays = [Frame [1, 2, 3] False [], Frame [1, 2, 3] True []],
      files = [''/opt/naturewatch/data/config.json'' \<mapsto> json_dumps example_config],
      unwritable = [], hw = good_device, trace = []\<rparr>"

text \<open>
  The same controller as its methods see it when the module flag \<^verbatim>\<open>picamera_exists\<close> is
  false. (\<^verbatim>\<open>__init__\<close> itself needs \<^verbatim>\<open>H264Encoder\<close> at line 121, with or without the
  module, so such a controller comes from a caller that provides that name.)
\<close>

definition headless_state :: controller where
  "headless_state =
     running_state\<lparr>picamera_exists := False, camera := None, af_enabled := False,
                   exposure_mode := None, yuvimage := None, image_attr := None, arrays := []\<rparr>"

text \<open>The controller after one call of \<^verbatim>\<open>stop()\<close>.\<close>

definition stopped_state :: controller where
  "stopped_state = state_of (stop running_state)"

text \<open>
  The running controller when its configuration file cannot be written (a read-only
  or full disk), and the same controller after a call \<^verbatim>\<open>set_LED('off')\<close> that failed
  for that reason.
\<close>

definition readonly_state :: controller where
  "readonly_state = running_state\<lparr>unwritable := [''/opt/naturewatch/data/config.json'']\<rparr>"

definition failed_write_state :: controller where
  "failed_write_state = state_of (set_LED ''off'' readonly_state)"


section \<open>Properties of the rounding\<close>

lemma ilog2_bounds: "0 < x \<Longrightarrow> 2 powi ilog2 x \<le> x \<and> x < 2 powi (ilog2 x + 1)"
proof (induction x rule: ilog2.induct)
  case (1 x)
  consider "2 \<le> x" | "x < 1" | "1 \<le> x" "x < 2" by linarith
  then show ?case
  proof cases
    case 1
    then have e: "ilog2 x = ilog2 (x / 2) + 1" using "1.prems" by (subst ilog2.simps) simp
    have "2 powi ilog2 (x / 2) \<le> x / 2 \<and> x / 2 < 2 powi (ilog2 (x / 2) + 1)"
      using "1.IH"(1) "1.prems" 1 by simp
    then show ?thesis unfolding e by (simp add: power_int_add)
  next
    case 2
    then have e: "ilog2 x = ilog2 (2 * x) - 1" using "1.prems" by (subst ilog2.simps) simp
    have "2 powi ilog2 (2 * x) \<le> 2 * x \<and> 2 * x < 2 powi (ilog2 (2 * x) + 1)"
      using "1.IH"(2) "1.prems" 2 by simp
    then show ?thesis unfolding e by (simp add: power_int_add power_int_diff)
  next
    case 3
    then have e: "ilog2 x = 0" by (subst ilog2.simps) simp
    show ?thesis unfolding e using 3 by simp
  qed
qed

lemma round_half_even_of_int: "round_half_even (of_int k) = k"
  by (simp add: round_half_even_def)

text \<open>A number with fewer than 54 significant bits, none below \<open>2\<^sup>-\<^sup>1\<^sup>0\<^sup>7\<^sup>4\<close>, is a double.\<close>

lemma round_double_exact:
  assumes x: "x = of_int m * 2 powi j" and m: "\<bar>m\<bar> < 2 ^ 53" and j: "- 1074 \<le> j"
    and big: "\<bar>x\<bar> < 2 powi 1024"
  shows "round_double x = Finite x"
proof (cases "x = 0")
  case True
  then show ?thesis by (simp add: round_double_def)
next
  case False
  define e where "e = ilog2 \<bar>x\<bar>"
  define q where "q = max (e - 52) (- 1074)"
  have xpos: "0 < \<bar>x\<bar>" using False by simp
  have "2 powi e \<le> \<bar>x\<bar>" unfolding e_def using ilog2_bounds [OF xpos] by simp
  also have "\<bar>x\<bar> = of_int \<bar>m\<bar> * 2 powi j" unfolding x by (simp add: abs_mult)
  also have "\<dots> < 2 ^ 53 * 2 powi j"
  proof -
    have "(of_int \<bar>m\<bar> :: rat) < of_int (2 ^ 53)" using m by (simp only: of_int_less_iff)
    then show ?thesis by (simp add: mult_strict_right_mono)
  qed
  also have "\<dots> = 2 powi (53 + j)" by (simp add: power_int_add)
  finally have "(2::rat) powi e < 2 powi (53 + j)" .
  then have "e < 53 + j"
    by (metis not_le power_int_increasing one_le_numeral)
  then have qj: "q \<le> j" unfolding q_def using j by simp
  have "x / 2 powi q = of_int m * 2 powi (j - q)"
    unfolding x by (simp add: power_int_diff)
  also have "\<dots> = of_int (m * 2 ^ nat (j - q))"
    using qj by (simp add: power_int_def)
  finally have i: "x / 2 powi q = of_int (m * 2 ^ nat (j - q))" .
  have r: "of_int (round_half_even (x / 2 powi q)) * 2 powi q = x"
    unfolding i round_half_even_of_int unfolding i [symmetric] by simp
  have nb: "\<not> 2 powi 1024 \<le> \<bar>x\<bar>" using big by simp
  show ?thesis
    using False nb
    by (simp only: round_double_def Let_def e_def [symmetric] q_def [symmetric] r if_False)
qed

lemma round_double_int:
  assumes "\<bar>n\<bar> < 2 ^ 53"
  shows "round_double (of_int n) = Finite (of_int n)"
proof (rule round_double_exact [where m = n and j = 0])
  show "(of_int n :: rat) = of_int n * 2 powi 0" by simp
  show "\<bar>n\<bar> < 2 ^ 53" by fact
  show "- 1074 \<le> (0::int)" by simp
  have "\<bar>of_int n :: rat\<bar> = of_int \<bar>n\<bar>" by simp
  also have "\<dots> < of_int (2 ^ 53)" using assms by (simp only: of_int_less_iff)
  also have "\<dots> < 2 powi 1024" by simp
  finally show "\<bar>of_int n :: rat\<bar> < 2 powi 1024" .
qed

lemma round_double_50000: "round_double 50000 = Finite 50000"
  using round_double_int [of 50000] by simp

text \<open>The exponent of a number is determined by the two powers of 2 that enclose it.\<close>

lemma ilog2_unique:
  assumes "2 powi e \<le> x" and "x < 2 powi (e + 1)"
  shows "ilog2 x = e"
proof -
  have "(0::rat) < 2 powi e" by simp
  then have xp: "0 < x" using assms(1) by linarith
  from ilog2_bounds [OF xp] have b: "2 powi ilog2 x \<le> x" "x < 2 powi (ilog2 x + 1)" by simp_all
  have "(2::rat) powi e < 2 powi (ilog2 x + 1)" using assms(1) b(2) by linarith
  then have 1: "e < ilog2 x + 1" by (metis not_le power_int_increasing one_le_numeral)
  have "(2::rat) powi ilog2 x < 2 powi (e + 1)" using assms(2) b(1) by linarith
  then have 2: "ilog2 x < e + 1" by (metis not_le power_int_increasing one_le_numeral)
  from 1 2 show ?thesis by simp
qed

lemma round_half_even_nearest:
  assumes "\<bar>x - of_int k\<bar> < 1 / 2"
  shows "round_half_even x = k"
proof (cases "of_int k \<le> x")
  case True
  then have f: "\<lfloor>x\<rfloor> = k" using assms by (simp add: floor_eq_iff abs_less_iff)
  show ?thesis using True assms by (simp add: round_half_even_def f abs_less_iff)
next
  case False
  then have f: "\<lfloor>x\<rfloor> = k - 1" using assms by (simp add: floor_eq_iff abs_less_iff)
  show ?thesis using False assms by (simp add: round_half_even_def f abs_less_iff)
qed

lemma round_double_normal:
  assumes "2 powi e \<le> \<bar>x\<bar>" and "\<bar>x\<bar> < 2 powi (e + 1)" and "- 1022 \<le> e"
    and "\<bar>x / 2 powi (e - 52) - of_int k\<bar> < 1 / 2"
    and "\<bar>of_int k * 2 powi (e - 52)\<bar> < (2::rat) powi 1024"
  shows "round_double x = Finite (of_int k * 2 powi (e - 52))"
proof -
  have e: "ilog2 \<bar>x\<bar> = e" using assms(1,2) by (rule ilog2_unique)
  have "(0::rat) < 2 powi e" by simp
  then have "0 < \<bar>x\<bar>" using assms(1) by linarith
  then have nz: "x \<noteq> 0" by simp
  have q: "max (e - 52) (- 1074) = e - 52" using assms(3) by simp
  have r: "round_half_even (x / 2 powi (e - 52)) = k"
    using assms(4) by (rule round_half_even_nearest)
  have nb: "\<not> 2 powi 1024 \<le> \<bar>of_int k * 2 powi (e - 52) :: rat\<bar>" using assms(5) by simp
  show ?thesis
    using nz nb by (simp only: round_double_def Let_def e q r if_False)
qed

section \<open>Properties of the resolver\<close>

lemma bisect_left_loop_bounds:
  "lo \<le> hi \<Longrightarrow> lo \<le> bisect_left_loop a x lo hi \<and> bisect_left_loop a x lo hi \<le> hi"
proof (induction a x lo hi rule: bisect_left_loop.induct)
  case (1 a x lo hi)
  show ?case
  proof (cases "lo < hi")
    case False
    with "1.prems" show ?thesis by (simp add: bisect_left_loop.simps)
  next
    case True
    let ?mid = "(lo + hi) div 2"
    have m: "lo \<le> ?mid" "?mid < hi" using True by auto
    show ?thesis
    proof (cases "a ! ?mid < x")
      case True
      have eq: "bisect_left_loop a x lo hi = bisect_left_loop a x (?mid + 1) hi"
        using \<open>lo < hi\<close> True by (subst bisect_left_loop.simps) (simp add: Let_def)
      have "?mid + 1 \<le> hi" using m by simp
      from "1.IH"(1)[OF \<open>lo < hi\<close> refl True this] m
      show ?thesis unfolding eq by simp
    next
      case False
      have eq: "bisect_left_loop a x lo hi = bisect_left_loop a x lo ?mid"
        using \<open>lo < hi\<close> False by (subst bisect_left_loop.simps) (simp add: Let_def)
      from "1.IH"(2)[OF \<open>lo < hi\<close> refl False m(1)] m
      show ?thesis unfolding eq by simp
    qed
  qed
qed

lemma bisect_left_loop_split:
  assumes "sorted a" "lo \<le> hi" "hi \<le> length a"
    and "\<forall>i<lo. a ! i < x" and "\<forall>i. hi \<le> i \<and> i < length a \<longrightarrow> x \<le> a ! i"
  shows "(\<forall>i < bisect_left_loop a x lo hi. a ! i < x) \<and>
         (\<forall>i. bisect_left_loop a x lo hi \<le> i \<and> i < length a \<longrightarrow> x \<le> a ! i)"
  using assms
proof (induction a x lo hi rule: bisect_left_loop.induct)
  case (1 a x lo hi)
  show ?case
  proof (cases "lo < hi")
    case False
    with "1.prems" have "lo = hi" by simp
    with "1.prems" show ?thesis by (simp add: bisect_left_loop.simps)
  next
    case lt: True
    let ?mid = "(lo + hi) div 2"
    have m: "lo \<le> ?mid" "?mid < hi" "?mid < length a" using lt "1.prems"(3) by auto
    show ?thesis
    proof (cases "a ! ?mid < x")
      case True
      have below: "\<forall>i<?mid + 1. a ! i < x"
      proof (intro allI impI)
        fix i assume "i < ?mid + 1"
        then have "i \<le> ?mid" by simp
        then have "a ! i \<le> a ! ?mid"
          using \<open>sorted a\<close> m(3) by (simp add: sorted_iff_nth_mono)
        with True show "a ! i < x" by simp
      qed
      have eq: "bisect_left_loop a x lo hi = bisect_left_loop a x (?mid + 1) hi"
        using lt True by (subst bisect_left_loop.simps) (simp add: Let_def)
      have "?mid + 1 \<le> hi" using m by simp
      from "1.IH"(1)[OF lt refl True "1.prems"(1) this "1.prems"(3) below "1.prems"(5)]
      show ?thesis unfolding eq .
    next
      case False
      have above: "\<forall>i. ?mid \<le> i \<and> i < length a \<longrightarrow> x \<le> a ! i"
      proof (intro allI impI)
        fix i assume "?mid \<le> i \<and> i < length a"
        then have "a ! ?mid \<le> a ! i"
          using \<open>sorted a\<close> by (simp add: sorted_iff_nth_mono)
        with False show "x \<le> a ! i" by simp
      qed
      have eq: "bisect_left_loop a x lo hi = bisect_left_loop a x lo ?mid"
        using lt False by (subst bisect_left_loop.simps) (simp add: Let_def)
      have "?mid \<le> length a" using m by simp
      from "1.IH"(2)[OF lt refl False "1.prems"(1) m(1) this "1.prems"(4) above]
      show ?thesis unfolding eq .
    qed
  qed
qed

lemma bisect_left_le_length: "bisect_left a x \<le> length a"
  using bisect_left_loop_bounds [of 0 "length a" a x] by (simp add: bisect_left_def)

lemma bisect_left_split:
  assumes "sorted a"
  shows "(\<forall>i < bisect_left a x. a ! i < x) \<and>
         (\<forall>i. bisect_left a x \<le> i \<and> i < length a \<longrightarrow> x \<le> a ! i)"
proof -
  have "\<forall>i<(0::nat). a ! i < x" by simp
  moreover have "\<forall>i. length a \<le> i \<and> i < length a \<longrightarrow> x \<le> a ! i" by auto
  ultimately show ?thesis
    unfolding bisect_left_def
    using bisect_left_loop_split [of a 0 "length a" x] assms by blast
qed

lemma bisect_left_below: "sorted a \<Longrightarrow> i < bisect_left a x \<Longrightarrow> a ! i < x"
  using bisect_left_split [of a x] by blast

lemma bisect_left_above:
  "sorted a \<Longrightarrow> bisect_left a x \<le> i \<Longrightarrow> i < length a \<Longrightarrow> x \<le> a ! i"
  using bisect_left_split [of a x] by blast

lemma find_closest_exposure_cases:
  assumes "sorted xs" "xs \<noteq> []"
  obtains (first) "bisect_left xs v = 0" "find_closest_exposure xs v = Inr (hd xs)" "v \<le> hd xs"
  | (last) "bisect_left xs v = length xs" "find_closest_exposure xs v = Inr (last xs)" "last xs < v"
  | (mid) i where "Suc i < length xs" "bisect_left xs v = Suc i" "xs ! i < v" "v \<le> xs ! Suc i"
      "find_closest_exposure xs v = Inr (if xs ! Suc i - v < v - xs ! i then xs ! Suc i else xs ! i)"
proof -
  let ?p = "bisect_left xs v"
  have len: "0 < length xs" using assms(2) by simp
  consider "?p = 0" | "?p = length xs" "?p \<noteq> 0" | "?p \<noteq> 0" "?p \<noteq> length xs" by blast
  then show thesis
  proof cases
    case 1
    have "v \<le> xs ! 0" using bisect_left_above [OF assms(1), of v 0] 1 len by simp
    then have "v \<le> hd xs" using assms(2) by (simp add: hd_conv_nth)
    moreover have "find_closest_exposure xs v = Inr (hd xs)"
      using 1 assms(2) by (simp add: find_closest_exposure_def hd_conv_nth)
    ultimately show thesis using 1 first by blast
  next
    case 2
    have "xs ! (length xs - 1) < v"
      using bisect_left_below [OF assms(1), of "length xs - 1" v] 2 len by simp
    then have "last xs < v" using assms(2) by (simp add: last_conv_nth)
    moreover have "find_closest_exposure xs v = Inr (last xs)"
      using 2 by (simp add: find_closest_exposure_def)
    ultimately show thesis using 2 last by blast
  next
    case 3
    then obtain i where i: "?p = Suc i" by (cases ?p) auto
    have lt: "Suc i < length xs" using i 3 bisect_left_le_length [of xs v] by simp
    have b: "xs ! i < v" using bisect_left_below [OF assms(1), of i v] i by simp
    have a: "v \<le> xs ! Suc i" using bisect_left_above [OF assms(1), of v "Suc i"] i lt by simp
    have "find_closest_exposure xs v = Inr (if xs ! Suc i - v < v - xs ! i then xs ! Suc i else xs ! i)"
      using i lt by (simp add: find_closest_exposure_def Let_def)
    then show thesis using mid lt i b a by blast
  qed
qed

text \<open>
  Claim C2. On an ascending non-empty list of integers (of numbers of any linearly ordered
  ring, in fact), \<^verbatim>\<open>find_closest_exposure\<close> returns a member of the list: the first element for a query below it, the last element
  for a query above it, and otherwise, of the two neighbours that enclose the query, the
  one strictly nearer to it, the smaller one when both are equally near. The result is
  thus a nearest element of the whole list, and the least of the nearest ones.
\<close>

theorem find_closest_exposure_correct:
  assumes "sorted xs" "xs \<noteq> []"
  shows "\<exists>r. find_closest_exposure xs v = Inr r \<and> r \<in> set xs
     \<and> (v < hd xs \<longrightarrow> r = hd xs)
     \<and> (last xs < v \<longrightarrow> r = last xs)
     \<and> (hd xs < v \<and> v \<le> last xs \<longrightarrow>
          (\<exists>i. Suc i < length xs \<and> xs ! i < v \<and> v \<le> xs ! Suc i \<and>
               r = (if \<bar>xs ! Suc i - v\<bar> < \<bar>v - xs ! i\<bar> then xs ! Suc i else xs ! i)))
     \<and> (\<forall>y\<in>set xs. \<bar>r - v\<bar> \<le> \<bar>y - v\<bar>)
     \<and> (\<forall>y\<in>set xs. \<bar>y - v\<bar> = \<bar>r - v\<bar> \<longrightarrow> r \<le> y)"
proof -
  have hd_le: "hd xs \<le> y" if "y \<in> set xs" for y
    using assms that by (cases xs) auto
  have le_last: "y \<le> last xs" if "y \<in> set xs" for y
  proof -
    from that obtain j where j: "j < length xs" "y = xs ! j" by (auto simp: in_set_conv_nth)
    then have "xs ! j \<le> xs ! (length xs - 1)"
      using assms(1) by (simp add: sorted_iff_nth_mono)
    then show ?thesis using j assms(2) by (simp add: last_conv_nth)
  qed
  show ?thesis
  proof (rule find_closest_exposure_cases [OF assms, of v])
    assume r: "find_closest_exposure xs v = Inr (hd xs)" and v: "v \<le> hd xs"
    have "\<bar>hd xs - v\<bar> \<le> \<bar>y - v\<bar>" if "y \<in> set xs" for y using hd_le [OF that] v by simp
    moreover have "\<not> last xs < v" using le_last [of "hd xs"] assms(2) v by simp
    ultimately show ?thesis using r v assms(2) hd_le by auto
  next
    assume r: "find_closest_exposure xs v = Inr (last xs)" and v: "last xs < v"
    have "\<bar>last xs - v\<bar> \<le> \<bar>y - v\<bar>" if "y \<in> set xs" for y using le_last [OF that] v by simp
    moreover have "last xs \<le> y" if "y \<in> set xs" "\<bar>y - v\<bar> = \<bar>last xs - v\<bar>" for y
      using le_last [OF that(1)] that(2) v by simp
    moreover have "\<not> v < hd xs" using le_last [of "hd xs"] assms(2) v by simp
    ultimately show ?thesis using r v assms(2) by auto
  next
    fix i
    assume lt: "Suc i < length xs" and p: "bisect_left xs v = Suc i"
      and b: "xs ! i < v" and a: "v \<le> xs ! Suc i"
      and r: "find_closest_exposure xs v =
                Inr (if xs ! Suc i - v < v - xs ! i then xs ! Suc i else xs ! i)"
    let ?r = "if xs ! Suc i - v < v - xs ! i then xs ! Suc i else xs ! i"
    have mem: "?r \<in> set xs" using lt by simp
    have split: "y \<le> xs ! i \<or> xs ! Suc i \<le> y" if "y \<in> set xs" for y
    proof -
      from that obtain j where j: "j < length xs" "y = xs ! j" by (auto simp: in_set_conv_nth)
      show ?thesis
      proof (cases "j \<le> i")
        case True
        then show ?thesis using j lt assms(1) by (simp add: sorted_iff_nth_mono)
      next
        case False
        then have "Suc i \<le> j" by simp
        then show ?thesis using j assms(1) by (simp add: sorted_iff_nth_mono)
      qed
    qed
    have near: "\<bar>?r - v\<bar> \<le> \<bar>y - v\<bar>" if "y \<in> set xs" for y
      using split [OF that] a b by auto
    have tie: "?r \<le> y" if "y \<in> set xs" "\<bar>y - v\<bar> = \<bar>?r - v\<bar>" for y
      using split [OF that(1)] that(2) a b by (auto split: if_splits)
    have hdv: "hd xs \<le> xs ! i" using hd_le [of "xs ! i"] lt by simp
    have lastv: "xs ! Suc i \<le> last xs" using le_last [of "xs ! Suc i"] lt by simp
    have nb: "\<exists>k. Suc k < length xs \<and> xs ! k < v \<and> v \<le> xs ! Suc k \<and>
               ?r = (if \<bar>xs ! Suc k - v\<bar> < \<bar>v - xs ! k\<bar> then xs ! Suc k else xs ! k)"
      using lt a b by (intro exI [of _ i]) auto
    have c1: "v < hd xs \<longrightarrow> ?r = hd xs" using hdv b by simp
    have c2: "last xs < v \<longrightarrow> ?r = last xs" using lastv a by simp
    show ?thesis
      unfolding r using mem c1 c2 nb near tie by blast
  qed
qed

theorem find_closest_exposure_correct_witness:
  "sorted [100, 200 :: int] \<and> [100, 200 :: int] \<noteq> [] \<and>
   find_closest_exposure [100, 200] 150 = Inr 100 \<and>
   (\<exists>r. find_closest_exposure [100, 200] 150 = Inr r \<and> r \<in> set [100, 200 :: int] \<and>
        (\<forall>y\<in>set [100, 200 :: int]. \<bar>r - 150\<bar> \<le> \<bar>y - 150\<bar>))"
proof -
  have h: "sorted [100, 200 :: int]" "[100, 200 :: int] \<noteq> []" by simp_all
  have v: "find_closest_exposure [100, 200] 150 = Inr 100"
    by (simp add: find_closest_exposure_def bisect_left_def bisect_left_loop.simps Let_def)
  from find_closest_exposure_correct [OF h, of 150] v h show ?thesis by simp
qed

section \<open>Properties of the configuration store\<close>

lemma writes_append: "writes (xs @ ys) = writes xs @ writes ys"
  by (induction xs rule: writes.induct) simp_all

lemma map_of_filter_fst:
  "map_of xs k = (case filter (\<lambda>p. fst p = k) xs of [] \<Rightarrow> None | p # _ \<Rightarrow> Some (snd p))"
  by (induction xs) auto

lemma json_roundtrip: "map_of (json_loads (json_dumps d)) = map_of d"
proof
  fix k
  have "filter (\<lambda>p. fst p = k) (sort_key fst d) = filter (\<lambda>p. fst p = k) d"
    by (rule sort_key_stable)
  then show "map_of (json_loads (json_dumps d)) k = map_of d k"
    by (simp add: json_loads_def json_dumps_def map_of_filter_fst [of _ k])
qed

lemma rewrite_config_effect:
  assumes "rewrite_config c s = Returned u s'"
  shows "\<exists>path. trace s' = trace s @ [File_write path (json_dumps c)] \<and> config s' = c \<and>
           files s' = (files s)(path \<mapsto> json_dumps c) \<and>
           module_path s' = module_path s \<and>
           persisted_config s' = Some (json_loads (json_dumps c))"
proof -
  from assms obtain dp where dp: "dict_get c ''data_path'' = Inr dp"
    by (auto simp: rewrite_config_def Let_def split: sum.splits)
  from assms dp obtain path where path: "config_path (module_path s) dp = Inr path"
    by (auto simp: rewrite_config_def Let_def split: sum.splits)
  from assms dp path have w: "path \<notin> set (unwritable s)"
    by (auto simp: rewrite_config_def update_config_def and_then_def Let_def split: if_splits)
  from assms dp path w
  have s': "s' = (emit (File_write path (json_dumps c))
                   (s\<lparr>config := c, files := (files s)(path \<mapsto> json_dumps c)\<rparr>))\<lparr>config := c\<rparr>"
    by (simp add: rewrite_config_def update_config_def and_then_def Let_def)
  have "persisted_config s' = Some (json_loads (json_dumps c))"
    using dp path by (simp add: s' persisted_config_def emit_def)
  moreover have "trace s' = trace s @ [File_write path (json_dumps c)]" "config s' = c"
    "files s' = (files s)(path \<mapsto> json_dumps c)" "module_path s' = module_path s"
    by (simp_all add: s' emit_def)
  ultimately show ?thesis by blast
qed

lemma writes_emit [simp]:
  "writes (trace (emit e s)) = writes (trace s) @ writes [e]"
  by (simp add: emit_def writes_append)

lemma emit_fields [simp]:
  "config (emit e s) = config s" "files (emit e s) = files s"
  "module_path (emit e s) = module_path s"
  by (simp_all add: emit_def)

lemma logger_fields [simp]:
  "config (logger l m s) = config s" "files (logger l m s) = files s"
  "module_path (logger l m s) = module_path s" "writes (trace (logger l m s)) = writes (trace s)"
  by (simp_all add: logger_def)

lemma and_then_Returned:
  "and_then m f = Returned u s' \<longleftrightarrow> (\<exists>v s1. m = Returned v s1 \<and> f v s1 = Returned u s')"
  by (cases m) (simp_all add: and_then_def)

lemma restart_service_fields [simp]:
  "config (restart_service s) = config s" "files (restart_service s) = files s"
  "module_path (restart_service s) = module_path s"
  "writes (trace (restart_service s)) = writes (trace s)"
  by (simp_all add: restart_service_def)

lemma reconfigure_rotation_fields:
  assumes "reconfigure_rotation d s = Returned u s'"
  shows "config s' = config s \<and> files s' = files s \<and> module_path s' = module_path s \<and>
         writes (trace s') = writes (trace s)"
  using assms
  by (auto simp: reconfigure_rotation_def Let_def split: option.splits prod.splits)

lemma persisted_field_reload:
  assumes "persisted_config s = Some (json_loads (json_dumps d))"
  shows "persisted_field s k = map_of d k"
  using assms by (simp add: persisted_field_def json_roundtrip)

text \<open>
  Claim C1, amended. A call of one of the seven setters that returns and has taken its
  writing path has written exactly one document to the store: the serialisation of the
  configuration that the controller holds on return. That document is what the store
  holds for the controller and, reloaded, it equals the in-memory record key for key. A
  call that returns without taking its writing path (\<^verbatim>\<open>set_camera_rotation\<close>,
  \<^verbatim>\<open>set_resolution\<close> and \<^verbatim>\<open>set_LED\<close> given the current attribute, \<^verbatim>\<open>set_exposure\<close> and
  \<^verbatim>\<open>auto_exposure\<close> without the picamera module) has written nothing and left the
  controller as it was, so after it the store agrees with the controller only if it did
  before.
\<close>

theorem setters_persist_config:
  assumes "call_setter c s = Returned u s'"
  shows "(takes_writing_path c s \<longrightarrow>
            (\<exists>path. writes (trace s') = writes (trace s) @ [(path, json_dumps (config s'))] \<and>
                    files s' path = Some (json_dumps (config s')) \<and>
                    persisted_config s' = Some (json_loads (json_dumps (config s')))) \<and>
            map_option map_of (persisted_config s') = Some (map_of (config s'))) \<and>
         (\<not> takes_writing_path c s \<longrightarrow> s' = s) \<and>
         (map_option map_of (persisted_config s) = Some (map_of (config s)) \<longrightarrow>
          map_option map_of (persisted_config s') = Some (map_of (config s')))"
proof -
  define P where "P = (\<lambda>s'.
     \<exists>path. writes (trace s') = writes (trace s) @ [(path, json_dumps (config s'))] \<and>
            files s' path = Some (json_dumps (config s')) \<and>
            persisted_config s' = Some (json_loads (json_dumps (config s'))))"
  have wrote: "P s'"
    if "rewrite_config cfg s1 = Returned v s2" "writes (trace s1) = writes (trace s)"
       "writes (trace s') = writes (trace s2)" "config s' = config s2" "files s' = files s2"
       "module_path s' = module_path s2"
    for cfg s1 v s2 s'
  proof -
    from rewrite_config_effect [OF that(1)] obtain path where
      e: "trace s2 = trace s1 @ [File_write path (json_dumps cfg)]" "config s2 = cfg"
         "files s2 = (files s1)(path \<mapsto> json_dumps cfg)"
         "persisted_config s2 = Some (json_loads (json_dumps cfg))"
      by blast
    have "persisted_config s' = persisted_config s2"
      by (simp only: persisted_config_def that(4-6))
    then show ?thesis
      unfolding P_def using e that(2-5) by (auto simp: writes_append)
  qed
  have a: "P s'" if w: "takes_writing_path c s"
  proof (cases c)
    case (Set_camera_rotation r)
    with assms w show ?thesis
      by (auto simp: set_camera_rotation_def Let_def and_then_Returned
            dest!: reconfigure_rotation_fields split: if_splits elim!: wrote)
  next
    case (Set_exposure t g)
    with assms w show ?thesis
      by (auto simp: set_exposure_def Let_def split: if_splits option.splits elim!: wrote)
  next
    case Auto_exposure
    with assms w show ?thesis
      by (auto simp: auto_exposure_def Let_def split: if_splits option.splits elim!: wrote)
  next
    case (Set_resolution r)
    with assms w show ?thesis
      by (auto simp: set_resolution_def Let_def and_then_Returned split: if_splits
            elim!: wrote)
  next
    case (Set_LED l)
    with assms w show ?thesis
      by (auto simp: set_LED_def Let_def split: if_splits elim!: wrote)
  next
    case (Set_TimestampMode t)
    with assms show ?thesis
      by (auto simp: set_TimestampMode_def Let_def split: if_splits elim!: wrote)
  next
    case (Set_sharpness v m)
    with assms show ?thesis
      by (auto simp: set_sharpness_def Let_def split: if_splits option.splits elim!: wrote)
  qed
  have b: "s' = s" if "\<not> takes_writing_path c s"
    using assms that
    by (cases c)
      (simp_all add: set_camera_rotation_def set_exposure_def auto_exposure_def
         set_resolution_def set_LED_def)
  have m: "map_option map_of (persisted_config s') = Some (map_of (config s'))" if "P s'"
    using that by (auto simp: P_def json_roundtrip)
  from a b m show ?thesis unfolding P_def by (cases "takes_writing_path c s") auto
qed

section \<open>Evaluation at the concrete states\<close>

lemmas eval_defs = running_state_def headless_state_def example_config_def good_device_def
  rewrite_config_def update_config_def config_path_def join2_def dict_get_def dict_set_def
  and_then_def emit_def logger_def Let_def persisted_config_def

lemma persisted_running:
  "persisted_config running_state = Some (json_loads (json_dumps (config running_state)))"
  by (simp add: eval_defs)

theorem setters_persist_config_witness:
  "call_setter (Set_LED ''off'') running_state =
     Returned () (state_of (call_setter (Set_LED ''off'') running_state)) \<and>
   takes_writing_path (Set_LED ''off'') running_state \<and>
   map_option map_of (persisted_config (state_of (call_setter (Set_LED ''off'') running_state))) =
     Some (map_of (config (state_of (call_setter (Set_LED ''off'') running_state)))) \<and>
   map_of (config (state_of (call_setter (Set_LED ''off'') running_state))) ''LED'' = Some (PyStr ''off'')"
proof -
  have h: "call_setter (Set_LED ''off'') running_state =
             Returned () (state_of (call_setter (Set_LED ''off'') running_state))"
    by (simp add: set_LED_def eval_defs)
  have p: "takes_writing_path (Set_LED ''off'') running_state"
    by (simp add: running_state_def)
  have l: "map_of (config (state_of (call_setter (Set_LED ''off'') running_state))) ''LED'' = Some (PyStr ''off'')"
    by (simp add: set_LED_def eval_defs)
  from setters_persist_config [OF h] p l h show ?thesis by simp
qed

text \<open>
  The claim as stated, for every setter that completes, fails after a write that failed.
  \<^verbatim>\<open>set_LED('off')\<close> on a controller whose file cannot be written raises from
  \<^verbatim>\<open>update_config\<close>, with the attribute and the in-memory record changed already. The
  same call once more finds the attribute equal to its argument and returns at once: the
  store still holds \<^verbatim>\<open>"on"\<close> and the in-memory record holds \<^verbatim>\<open>"off"\<close>.
\<close>

lemma persisted_failed_write:
  "persisted_config failed_write_state = Some (json_loads (json_dumps example_config))"
  by (simp add: failed_write_state_def readonly_state_def set_LED_def eval_defs)

theorem setters_persist_counterexample:
  "set_LED ''off'' readonly_state = Raised OSError failed_write_state \<and>
   call_setter (Set_LED ''off'') failed_write_state = Returned () failed_write_state \<and>
   persisted_field failed_write_state ''LED'' = Some (PyStr ''on'') \<and>
   map_of (config failed_write_state) ''LED'' = Some (PyStr ''off'')"
proof -
  have a: "set_LED ''off'' readonly_state = Raised OSError failed_write_state"
    by (simp add: failed_write_state_def readonly_state_def set_LED_def eval_defs)
  have b: "LED failed_write_state = ''off''"
    "map_of (config failed_write_state) ''LED'' = Some (PyStr ''off'')"
    by (simp_all add: failed_write_state_def readonly_state_def set_LED_def eval_defs)
  have c: "persisted_field failed_write_state ''LED'' = Some (PyStr ''on'')"
    by (simp add: persisted_field_reload [OF persisted_failed_write] example_config_def)
  from a b c show ?thesis by (simp add: set_LED_def)
qed

section \<open>Setters called with the current value\<close>

lemma unguarded_setter_writes:
  assumes "rewrite_config cfg s1 = Returned u s'" and "writes (trace s1) = writes (trace s)"
  shows "length (writes (trace s')) = Suc (length (writes (trace s)))"
  using rewrite_config_effect [OF assms(1)] assms(2) by (auto simp: writes_append)

text \<open>
  Claim C3, as the code has it. \<^verbatim>\<open>set_camera_rotation\<close>, \<^verbatim>\<open>set_resolution\<close> and
  \<^verbatim>\<open>set_LED\<close> compare their argument with the attribute of the controller and do
  nothing at all when the two are equal: the state, with its configuration, its files and
  its trace of effects, is returned as it was. \<^verbatim>\<open>set_TimestampMode\<close> and
  \<^verbatim>\<open>set_sharpness\<close> make no such comparison: every call of theirs that returns has
  written the record once more, and \<^verbatim>\<open>set_sharpness\<close> has sent the control to the
  camera as well.
\<close>

theorem guarded_setters_noop:
  "(rotated_camera s = r \<longrightarrow> set_camera_rotation r s = Returned () s) \<and>
   (resolution s = res \<longrightarrow> set_resolution res s = Returned () s) \<and>
   (LED s = l \<longrightarrow> set_LED l s = Returned () s) \<and>
   (\<forall>s'. set_TimestampMode t s = Returned () s' \<longrightarrow>
         length (writes (trace s')) = Suc (length (writes (trace s)))) \<and>
   (\<forall>s'. set_sharpness v m s = Returned () s' \<longrightarrow>
         length (writes (trace s')) = Suc (length (writes (trace s))) \<and>
         Cam_set_controls [(''Sharpness'', PyInt (if m = ''auto'' then 1 else v))] \<in> set (trace s'))"
proof -
  have g: "(rotated_camera s = r \<longrightarrow> set_camera_rotation r s = Returned () s) \<and>
           (resolution s = res \<longrightarrow> set_resolution res s = Returned () s) \<and>
           (LED s = l \<longrightarrow> set_LED l s = Returned () s)"
    by (simp add: set_camera_rotation_def set_resolution_def set_LED_def)
  have t: "length (writes (trace s')) = Suc (length (writes (trace s)))"
    if "set_TimestampMode t s = Returned () s'" for s'
    using that
    by (auto simp: set_TimestampMode_def Let_def split: if_splits
          elim!: unguarded_setter_writes)
  have sh: "length (writes (trace s')) = Suc (length (writes (trace s)))"
    if "set_sharpness v m s = Returned () s'" for s'
    using that
    by (auto simp: set_sharpness_def Let_def split: if_splits option.splits
          elim!: unguarded_setter_writes)
  have ctl: "Cam_set_controls [(''Sharpness'', PyInt (if m = ''auto'' then 1 else v))] \<in> set (trace s')"
    if "set_sharpness v m s = Returned () s'" for s'
    using that
    by (auto simp: set_sharpness_def Let_def emit_def logger_def
          split: if_splits option.splits dest!: rewrite_config_effect)
  from g t sh ctl show ?thesis by blast
qed

theorem guarded_setters_noop_witness:
  "rotated_camera running_state = False \<and>
   set_camera_rotation False running_state = Returned () running_state \<and>
   resolution running_state = ''1920x1080'' \<and>
   set_resolution ''1920x1080'' running_state = Returned () running_state \<and>
   LED running_state = ''on'' \<and> set_LED ''on'' running_state = Returned () running_state \<and>
   set_TimestampMode ''on'' running_state =
     Returned () (state_of (set_TimestampMode ''on'' running_state)) \<and>
   length (writes (trace (state_of (set_TimestampMode ''on'' running_state)))) = 1 \<and>
   set_sharpness 2 ''manual'' running_state =
     Returned () (state_of (set_sharpness 2 ''manual'' running_state)) \<and>
   length (writes (trace (state_of (set_sharpness 2 ''manual'' running_state)))) = 1"
proof -
  have a: "rotated_camera running_state = False" "resolution running_state = ''1920x1080''"
    "LED running_state = ''on''" "writes (trace running_state) = []"
    by (simp_all add: running_state_def)
  have h1: "set_TimestampMode ''on'' running_state =
              Returned () (state_of (set_TimestampMode ''on'' running_state))"
    by (simp add: set_TimestampMode_def eval_defs)
  have h2: "set_sharpness 2 ''manual'' running_state =
              Returned () (state_of (set_sharpness 2 ''manual'' running_state))"
    by (simp add: set_sharpness_def eval_defs)
  from guarded_setters_noop [of running_state False "''1920x1080''" "''on''" "''on''" 2 "''manual''"]
    a h1 h2
  show ?thesis by simp
qed

text \<open>
  The claim as stated fails: the controller has the timestamp on and the sharpness 2 in
  manual mode, and is asked to set just these values; both calls write the file again, and
  the second sends the sharpness to the camera again.
\<close>

theorem setters_noop_counterexample:
  "timestamp running_state = 1 \<and>
   dict_get (config running_state) ''timestamp'' = Inr (PyStr ''on'') \<and>
   writes (trace running_state) = [] \<and>
   writes (trace (state_of (set_TimestampMode ''on'' running_state))) =
     [(''/opt/naturewatch/data/config.json'', json_dumps example_config)] \<and>
   sharpness_val running_state = 2 \<and> sharpness_mode running_state = ''manual'' \<and>
   dict_get (config running_state) ''sharpness_val'' = Inr (PyInt 2) \<and>
   dict_get (config running_state) ''sharpness_mode'' = Inr (PyStr ''manual'') \<and>
   trace (state_of (set_sharpness 2 ''manual'' running_state)) =
     [Cam_set_controls [(''Sharpness'', PyInt 2)],
      Log Debug ''CameraController: Sharpness set'',
      File_write ''/opt/naturewatch/data/config.json'' (json_dumps example_config)]"
  by (simp add: set_TimestampMode_def set_sharpness_def eval_defs)


section \<open>What \<^verbatim>\<open>set_exposure\<close> persists\<close>







section \<open>Stopping twice\<close>

lemma session_releases_append:
  "session_releases (xs @ ys) = session_releases xs + session_releases ys"
  by (simp add: session_releases_def)

text \<open>
  Claim C4, as the code has it. After a call of \<^verbatim>\<open>stop()\<close> that returned, the stop flag
  is set. With the picamera module present, that call released the session once and set
  \<^verbatim>\<open>self.camera\<close> to \<^verbatim>\<open>None\<close>, and a second call raises \<^verbatim>\<open>AttributeError\<close> on it,
  leaving the state exactly as the first call left it. Without the module a second call
  returns and only logs once more. In both cases the flag stays set and the second call
  releases nothing.
\<close>

theorem stop_twice:
  assumes "stop s = Returned u s1"
  shows "stop_event s1 \<and>
         (picamera_exists s \<longrightarrow>
            camera s1 = None \<and> session_releases (trace s1) = Suc (session_releases (trace s)) \<and>
            stop s1 = Raised AttributeError s1) \<and>
         (\<not> picamera_exists s \<longrightarrow>
            session_releases (trace s1) = session_releases (trace s) \<and>
            stop s1 = Returned () (logger Info ''CameraController: stopping ...'' s1)) \<and>
         stop_event (state_of (stop s1)) \<and>
         session_releases (trace (state_of (stop s1))) = session_releases (trace s1)"
proof (cases "picamera_exists s")
  case True
  with assms obtain cam where cam: "camera s = Some cam"
    by (auto simp: stop_def and_then_def Let_def split: option.splits)
  from assms True cam
  have s1: "s1 = logger Info ''CameraController: stopping ...''
              ((emit Cam_close (emit Cam_stop (emit Cam_stop_encoder (s\<lparr>stop_event := True\<rparr>))))
                 \<lparr>camera := None\<rparr>)"
    by (simp add: stop_def and_then_def Let_def)
  have a: "stop_event s1" "camera s1 = None" "picamera_exists s1"
    "session_releases (trace s1) = Suc (session_releases (trace s))"
    using True by (simp_all add: s1 logger_def emit_def session_releases_def)
  have e: "s1\<lparr>stop_event := True\<rparr> = s1" using a(1) by simp
  have "stop s1 = Raised AttributeError s1"
    unfolding stop_def Let_def e using a by (simp add: and_then_def)
  with a True show ?thesis by simp
next
  case False
  with assms
  have s1: "s1 = logger Info ''CameraController: stopping ...'' (s\<lparr>stop_event := True\<rparr>)"
    by (simp add: stop_def and_then_def Let_def)
  have a: "stop_event s1" "\<not> picamera_exists s1"
    "session_releases (trace s1) = session_releases (trace s)"
    using False by (simp_all add: s1 logger_def emit_def session_releases_def)
  have e: "s1\<lparr>stop_event := True\<rparr> = s1" using a(1) by simp
  have "stop s1 = Returned () (logger Info ''CameraController: stopping ...'' s1)"
    unfolding stop_def Let_def e using a by (simp add: and_then_def)
  with a False show ?thesis by (simp add: logger_def emit_def session_releases_def)
qed

theorem stop_twice_witness:
  "stop running_state = Returned () stopped_state \<and> picamera_exists running_state \<and>
   stop_event stopped_state \<and> camera stopped_state = None \<and>
   session_releases (trace stopped_state) = 1 \<and>
   stop stopped_state = Raised AttributeError stopped_state \<and>
   stop headless_state = Returned () (state_of (stop headless_state)) \<and>
   \<not> picamera_exists headless_state \<and>
   stop (state_of (stop headless_state)) =
     Returned () (logger Info ''CameraController: stopping ...'' (state_of (stop headless_state)))"
proof -
  have h: "stop running_state = Returned () stopped_state"
    by (simp add: stopped_state_def stop_def running_state_def and_then_def Let_def)
  have p: "picamera_exists running_state" "session_releases (trace running_state) = 0"
    by (simp_all add: running_state_def session_releases_def)
  have h2: "stop headless_state = Returned () (state_of (stop headless_state))"
    by (simp add: stop_def headless_state_def and_then_def Let_def)
  have p2: "\<not> picamera_exists headless_state" by (simp add: headless_state_def)
  from stop_twice [OF h] stop_twice [OF h2] h p h2 p2 show ?thesis by simp
qed


text \<open>
  The claim as stated fails: for the running controller the first call returns and the
  second raises.
\<close>

theorem stop_twice_counterexample:
  "stop running_state = Returned () stopped_state \<and>
   stop stopped_state = Raised AttributeError stopped_state"
  by (simp add: stopped_state_def stop_def running_state_def and_then_def Let_def emit_def logger_def)

section \<open>The capacity of the circular buffer\<close>

lemma py_int_trunc:
  "\<bar>of_int (py_int x) - x\<bar> < 1 \<and> (0 \<le> x \<longrightarrow> py_int x = \<lfloor>x\<rfloor>) \<and> (x \<le> 0 \<longrightarrow> py_int x = \<lceil>x\<rceil>)"
  unfolding py_int_def by (auto; linarith)

lemma num_of_number:
  assumes "num_of v = Inr x"
  shows "\<exists>n. number_of v = Inr n \<and> number_value n = Some x"
  using assms by (cases v) (auto split: if_splits)

lemma quarter_double:
  assumes q: "4 * v \<in> \<int>" and b: "\<bar>v\<bar> < 2 ^ 51"
  shows "round_double v = Finite v"
proof -
  from q obtain m :: int where m: "4 * v = of_int m" by (auto elim: Ints_cases)
  have "\<bar>of_int m :: rat\<bar> < 2 ^ 53" unfolding m [symmetric] using b by (simp add: abs_mult)
  then have "(of_int \<bar>m\<bar> :: rat) < of_int (2 ^ 53)" by simp
  then have mb: "\<bar>m\<bar> < 2 ^ 53" by (simp only: of_int_less_iff)
  have v: "v = of_int m * 2 powi (- 2)" using m by (simp add: power_int_minus)
  have "\<bar>v\<bar> < 2 powi 1024" using b by (simp add: less_trans)
  from round_double_exact [OF v mb _ this] show ?thesis by simp
qed

lemma half_quarter:
  fixes v :: rat
  assumes "2 * v \<in> \<int>"
  shows "4 * v \<in> \<int>"
proof -
  from assms obtain k :: int where k: "2 * v = of_int k" by (auto elim: Ints_cases)
  have "4 * v = 2 * (2 * v)" by simp
  also have "\<dots> = of_int (2 * k)" unfolding k by simp
  finally show ?thesis by (simp only: Ints_of_int)
qed

lemma float_of_value:
  assumes "number_value n = Some v" and "4 * v \<in> \<int>" and "\<bar>v\<bar> < 2 ^ 51"
  shows "float_of n = Inr (Finite v)"
proof (cases n)
  case (IntNum k)
  then have "v = of_int k" using assms by simp
  then show ?thesis using IntNum quarter_double [OF assms(2,3)] by simp
next
  case (FloatNum f)
  then show ?thesis using assms by (cases f) simp_all
qed

lemma py_add_value:
  assumes "number_value p = Some v" and "number_value q = Some w"
    and "4 * v \<in> \<int>" and "4 * w \<in> \<int>"
    and "\<bar>v\<bar> < 2 ^ 51" and "\<bar>w\<bar> < 2 ^ 51" and "\<bar>v + w\<bar> < 2 ^ 51"
  shows "\<exists>r. py_add p q = Inr r \<and> number_value r = Some (v + w)"
proof -
  have s: "4 * (v + w) \<in> \<int>" using assms(3,4) by (simp add: distrib_left)
  have r: "round_double (v + w) = Finite (v + w)" by (rule quarter_double [OF s assms(7)])
  have fp: "float_of p = Inr (Finite v)" by (rule float_of_value [OF assms(1,3,5)])
  have fq: "float_of q = Inr (Finite w)" by (rule float_of_value [OF assms(2,4,6)])
  show ?thesis
  proof (cases p)
    case (IntNum m)
    note p = this
    show ?thesis
    proof (cases q)
      case (IntNum n)
      then show ?thesis using p assms(1,2) by auto
    next
      case (FloatNum g)
      then show ?thesis using p fp fq r by (simp add: err_bind_def)
    qed
  next
    case (FloatNum f)
    then show ?thesis using fp fq r by (simp add: err_bind_def)
  qed
qed

lemma py_mul_value:
  assumes "number_value p = Some v" and "number_value q = Some w"
    and "2 * v \<in> \<int>" and "2 * w \<in> \<int>"
    and "\<bar>v\<bar> < 2 ^ 51" and "\<bar>w\<bar> < 2 ^ 51" and "\<bar>v * w\<bar> < 2 ^ 51"
  shows "\<exists>r. py_mul p q = Inr r \<and> number_value r = Some (v * w)"
proof -
  have "(2 * v) * (2 * w) \<in> \<int>" using assms(3,4) by (rule Ints_mult)
  moreover have "(2 * v) * (2 * w) = 4 * (v * w)" by simp
  ultimately have s: "4 * (v * w) \<in> \<int>" by simp
  have v4: "4 * v \<in> \<int>" "4 * w \<in> \<int>"
    using assms(3,4) by (simp_all add: half_quarter)
  have r: "round_double (v * w) = Finite (v * w)" by (rule quarter_double [OF s assms(7)])
  have fp: "float_of p = Inr (Finite v)" by (rule float_of_value [OF assms(1) v4(1) assms(5)])
  have fq: "float_of q = Inr (Finite w)" by (rule float_of_value [OF assms(2) v4(2) assms(6)])
  show ?thesis
  proof (cases p)
    case (IntNum m)
    note p = this
    show ?thesis
    proof (cases q)
      case (IntNum n)
      then show ?thesis using p assms(1,2) by auto
    next
      case (FloatNum g)
      then show ?thesis using p fp fq r by (simp add: err_bind_def)
    qed
  next
    case (FloatNum f)
    then show ?thesis using fp fq r by (simp add: err_bind_def)
  qed
qed

lemma int_of_number_value:
  assumes "number_value r = Some v"
  shows "int_of_number r = Inr (py_int v)"
proof (cases r)
  case (IntNum n)
  then show ?thesis using assms by (auto simp: py_int_def)
next
  case (FloatNum f)
  then show ?thesis using assms by (cases f) simp_all
qed

text \<open>
  Claim C7, amended. Line 119 computes in doubles: the two additions and the product are
  each rounded to the nearest double, and \<^verbatim>\<open>int\<close> truncates the result towards zero. When
  the three settings are whole or half numbers (as \<^verbatim>\<open>int\<close>, \<^verbatim>\<open>bool\<close> or \<^verbatim>\<open>float\<close>), the two
  durations below \<open>2\<^sup>4\<^sup>9\<close> and the frame rate and the product below \<open>2\<^sup>5\<^sup>1\<close> in absolute
  value, no operation rounds, and the buffer size computed at construction is the integer
  truncation of \<open>frame_rate \<times> (before + after + 0.5)\<close>: it differs from that number by less
  than one, it is its floor when the product is not negative and its ceiling when the
  product is not positive. For 20 frames per second, 5 seconds before and 3 seconds after,
  it is 170.
\<close>

theorem video_buffer_size_capacity:
  assumes "dict_get c ''frame_rate'' = Inr fr"
    and "dict_get c ''video_duration_before_motion'' = Inr bv"
    and "dict_get c ''video_duration_after_motion'' = Inr av"
    and "num_of fr = Inr x" and "num_of bv = Inr y" and "num_of av = Inr z"
    and "2 * x \<in> \<int>" and "2 * y \<in> \<int>" and "2 * z \<in> \<int>"
    and "\<bar>x\<bar> < 2 ^ 51" and "\<bar>y\<bar> < 2 ^ 49" and "\<bar>z\<bar> < 2 ^ 49"
    and "\<bar>x * (y + z + 1 / 2)\<bar> < 2 ^ 51"
  shows "\<exists>n. video_buffer_size c = Inr n \<and>
           n = py_int (x * (y + z + 1 / 2)) \<and>
           \<bar>of_int n - x * (y + z + 1 / 2)\<bar> < 1 \<and>
           (0 \<le> x * (y + z + 1 / 2) \<longrightarrow> n = \<lfloor>x * (y + z + 1 / 2)\<rfloor>) \<and>
           (x * (y + z + 1 / 2) \<le> 0 \<longrightarrow> n = \<lceil>x * (y + z + 1 / 2)\<rceil>) \<and>
           (x = 20 \<and> y = 5 \<and> z = 3 \<longrightarrow> n = 170)"
proof -
  let ?p = "x * (y + z + 1 / 2)"
  from num_of_number [OF assms(4)] obtain f where f: "number_of fr = Inr f" "number_value f = Some x"
    by blast
  from num_of_number [OF assms(5)] obtain b where b: "number_of bv = Inr b" "number_value b = Some y"
    by blast
  from num_of_number [OF assms(6)] obtain a where a: "number_of av = Inr a" "number_value a = Some z"
    by blast
  have q: "4 * y \<in> \<int>" "4 * z \<in> \<int>"
    using assms(8,9) by (simp_all add: half_quarter)
  have yz: "\<bar>y + z\<bar> < 2 ^ 50" using assms(11,12) by simp
  have by': "\<bar>y\<bar> < 2 ^ 51" "\<bar>z\<bar> < 2 ^ 51" "\<bar>y + z\<bar> < 2 ^ 51" using assms(11,12) by simp_all
  from py_add_value [OF b(2) a(2) q(1,2) by']
  obtain t1 where t1: "py_add b a = Inr t1" "number_value t1 = Some (y + z)" by blast
  have h: "number_value (FloatNum (Finite (1 / 2))) = Some (1 / 2)" by simp
  have yz4: "4 * (y + z) \<in> \<int>" using q(1,2) by (simp add: distrib_left)
  have hb: "\<bar>1 / 2 :: rat\<bar> < 2 ^ 51" by simp
  have yzh: "\<bar>y + z + 1 / 2\<bar> < 2 ^ 51" using yz by simp
  have "(4::rat) * (1 / 2) \<in> \<int>" by simp
  from py_add_value [OF t1(2) h yz4 this by'(3) hb yzh]
  obtain t2 where t2: "py_add t1 (FloatNum (Finite (1 / 2))) = Inr t2"
    "number_value t2 = Some (y + z + 1 / 2)" by blast
  have "2 * (y + z + 1 / 2) = 2 * y + 2 * z + 1" by simp
  also have "\<dots> \<in> \<int>" using assms(8,9) by simp
  finally have t22: "2 * (y + z + 1 / 2) \<in> \<int>" .
  from py_mul_value [OF f(2) t2(2) assms(7) t22 assms(10) yzh assms(13)]
  obtain t3 where t3: "py_mul f t2 = Inr t3" "number_value t3 = Some ?p" by blast
  have v: "video_buffer_size c = Inr (py_int ?p)"
    using assms(1-3) f(1) b(1) a(1) t1(1) t2(1) t3(1) int_of_number_value [OF t3(2)]
    by (simp add: video_buffer_size_def err_bind_def)
  have e: "py_int ?p = 170" if "x = 20 \<and> y = 5 \<and> z = 3"
    using that by (simp add: py_int_def)
  show ?thesis using v py_int_trunc [of ?p] e by auto
qed

theorem video_buffer_size_capacity_witness:
  "dict_get example_config ''frame_rate'' = Inr (PyInt 20) \<and>
   dict_get example_config ''video_duration_before_motion'' = Inr (PyInt 5) \<and>
   dict_get example_config ''video_duration_after_motion'' = Inr (PyInt 3) \<and>
   video_buffer_size example_config = Inr 170"
proof -
  have h: "dict_get example_config ''frame_rate'' = Inr (PyInt 20)"
    "dict_get example_config ''video_duration_before_motion'' = Inr (PyInt 5)"
    "dict_get example_config ''video_duration_after_motion'' = Inr (PyInt 3)"
    by (simp_all add: example_config_def dict_get_def)
  have n: "num_of (PyInt 20) = Inr 20" "num_of (PyInt 5) = Inr 5" "num_of (PyInt 3) = Inr 3"
    by simp_all
  from video_buffer_size_capacity [OF h n] h show ?thesis by auto
qed

text \<open>
  Outside that range the capacity is the truncation of the rounded product, which is not
  always the truncation of the exact one. With 3 frames per second and a window of \<open>2\<^sup>5\<^sup>3\<close>
  seconds, adding 0.5 is lost to rounding, and the capacity is \<open>3 \<times> 2\<^sup>5\<^sup>3\<close>, one less than
  the truncation of the exact product. With 10 frames per second and a window of 1.2
  seconds, the setting is the double nearest to 1.2, which lies below it; its product
  with 10 after adding 0.5 lies below 17 and rounds to the double 17, so the capacity is
  17, where the truncation of the exact product of the values held is 16.
\<close>

lemma sum_rounds_to_even:
  "round_double (9007199254740992 + 1 / 2) = Finite 9007199254740992"
  using round_double_normal [of 53 "9007199254740992 + 1 / 2" 4503599627370496]
  by (simp add: power_int_def)

lemma product_rounds_up:
  "round_double (10 * (5404319552844595 / 4503599627370496 + 1 / 2)) = Finite 17"
proof -
  have "(2::rat) powi (- 48) * 2 ^ 48 = 1" by (simp add: power_int_minus)
  then have "(2::rat) powi (- 48) * 281474976710656 = 1" by simp
  then have p: "(2::rat) powi (4 - 52) = 1 / 281474976710656" by (simp add: field_simps)
  show ?thesis
    using round_double_normal [of 4 "10 * (5404319552844595 / 4503599627370496 + 1 / 2)" 4785074604081152]
    unfolding p by simp
qed


lemma doubles_of_long_window:
  "round_double 9007199254740992 = Finite 9007199254740992"
  "round_double 27021597764222976 = Finite 27021597764222976"
  using round_double_exact [of 9007199254740992 1 53] round_double_exact [of 27021597764222976 3 53]
  by simp_all

lemma doubles_of_fractional_window:
  "round_double (5404319552844595 / 4503599627370496) = Finite (5404319552844595 / 4503599627370496)"
  "round_double (5404319552844595 / 4503599627370496 + 1 / 2) =
     Finite (5404319552844595 / 4503599627370496 + 1 / 2)"
proof -
  have "(2::rat) powi (- 52) * 2 ^ 52 = 1" by (simp add: power_int_minus)
  then have "(2::rat) powi (- 52) * 4503599627370496 = 1" by simp
  then have p: "(2::rat) powi (- 52) = 1 / 4503599627370496" by (simp add: field_simps)
  show "round_double (5404319552844595 / 4503599627370496) = Finite (5404319552844595 / 4503599627370496)"
    using round_double_exact [of "5404319552844595 / 4503599627370496" 5404319552844595 "- 52"]
    unfolding p by simp
  show "round_double (5404319552844595 / 4503599627370496 + 1 / 2) =
     Finite (5404319552844595 / 4503599627370496 + 1 / 2)"
    using round_double_exact [of "5404319552844595 / 4503599627370496 + 1 / 2" 7656119366529843 "- 52"]
    unfolding p by simp
qed

theorem video_buffer_size_counterexample:
  "video_buffer_size long_window_config = Inr 27021597764222976 \<and>
   py_int (3 * (9007199254740992 + 0 + 1 / 2)) = 27021597764222977 \<and>
   video_buffer_size fractional_window_config = Inr 17 \<and>
   py_int (10 * (5404319552844595 / 4503599627370496 + 0 + 1 / 2)) = 16"
proof -
  have a: "video_buffer_size long_window_config = Inr 27021597764222976"
    using doubles_of_long_window sum_rounds_to_even round_double_int [of 3]
    by (simp add: video_buffer_size_def long_window_config_def dict_get_def err_bind_def
        py_int_def)
  have b: "video_buffer_size fractional_window_config = Inr 17"
    using doubles_of_fractional_window product_rounds_up round_double_int [of 10]
    by (simp add: video_buffer_size_def fractional_window_config_def dict_get_def err_bind_def
        py_int_def round_double_def [of 0])
  have c: "py_int (3 * (9007199254740992 + 0 + 1 / 2)) = 27021597764222977"
    "py_int (10 * (5404319552844595 / 4503599627370496 + 0 + 1 / 2)) = 16"
    by (simp_all add: py_int_def floor_eq_iff)
  from a b c show ?thesis by simp
qed

section \<open>The startup handler\<close>

text \<open>
  Claim C8 does not hold of the code. Whatever the body of the \<^verbatim>\<open>try\<close> raised, the
  handler first evaluates \<^verbatim>\<open>isinstance(e)\<close>, which raises \<^verbatim>\<open>TypeError\<close>; the message
  is never inspected, the camera is never probed, and neither a
  \<^verbatim>\<open>CameraNotFoundException\<close> nor the original error reaches \<^verbatim>\<open>create_error_app\<close>. So
  it is for the error of a camera that is not enabled while the probe reports one camera.
\<close>

theorem main_block_handler_raises:
  "main_block (Some (Startup_error ''Camera is not enabled. Try running raspi-config.'')) ''1'' =
     Inl TypeError \<and>
   (\<forall>e grep_stdout. main_block (Some e) grep_stdout = Inl TypeError)"
  by (simp add: main_block_def isinstance_one_arg_def)



section \<open>The autofocus routine\<close>

lemma af_wait_success: "af_wait True i s = s"
  by (simp add: af_wait.simps)

lemma af_wait_timeout: "af_wait False 0 s = s\<lparr>trace := trace s @ replicate 5 (Sleep 1)\<rparr>"
  by (simp add: af_wait.simps emit_def eval_nat_numeral)

text \<open>
  Claim C6, amended. With autofocus enabled and a session open, \<^verbatim>\<open>run_autofocus\<close>
  triggers one focus cycle, waits at most five times one second, and then logs the
  outcome: success, without waiting, when the cycle reports success, and a timeout when
  it reports failure. The routine has no error guard: an exception of the focus cycle
  passes to the caller, and with no session open the routine raises \<^verbatim>\<open>AttributeError\<close>.
\<close>

theorem run_autofocus_behaviour:
  assumes "af_enabled s"
  shows "(camera s = None \<longrightarrow> run_autofocus s = Raised AttributeError s) \<and>
         (camera s \<noteq> None \<longrightarrow>
            (\<forall>e. dev_af (hw s) = Inl e \<longrightarrow>
                 run_autofocus s = Raised e (emit Cam_autofocus_cycle s)) \<and>
            (\<forall>ok. dev_af (hw s) = Inr ok \<longrightarrow>
                 (\<exists>n\<le>5. (ok \<longrightarrow> n = 0) \<and>
                    run_autofocus s = Returned ()
                      (s\<lparr>trace := trace s @ Cam_autofocus_cycle # replicate n (Sleep 1) @
                         [Log Debug
                            (if ok
                             then ''CameraController: autofocus routine completed successfully''
                             else ''CameraController: autofocus routine timed out'')]\<rparr>))))"
proof -
  have 1: "run_autofocus s = Raised AttributeError s" if "camera s = None"
    using assms that by (simp add: run_autofocus_def)
  have 2: "run_autofocus s = Raised e (emit Cam_autofocus_cycle s)"
    if "camera s \<noteq> None" "dev_af (hw s) = Inl e" for e
    using assms that by (auto simp: run_autofocus_def Let_def emit_def split: option.splits)
  have 3: "\<exists>n\<le>5. (ok \<longrightarrow> n = 0) \<and>
              run_autofocus s = Returned ()
                (s\<lparr>trace := trace s @ Cam_autofocus_cycle # replicate n (Sleep 1) @
                   [Log Debug
                      (if ok
                       then ''CameraController: autofocus routine completed successfully''
                       else ''CameraController: autofocus routine timed out'')]\<rparr>)"
    if c: "camera s \<noteq> None" and d: "dev_af (hw s) = Inr ok" for ok
  proof (cases ok)
    case True
    have "run_autofocus s = Returned ()
            (s\<lparr>trace := trace s @ Cam_autofocus_cycle # replicate 0 (Sleep 1) @
               [Log Debug ''CameraController: autofocus routine completed successfully'']\<rparr>)"
      using assms c d True
      by (auto simp: run_autofocus_def Let_def af_wait_success emit_def logger_def
            split: option.splits)
    then show ?thesis using True by (intro exI [of _ 0]) simp
  next
    case False
    have "run_autofocus s = Returned ()
            (s\<lparr>trace := trace s @ Cam_autofocus_cycle # replicate 5 (Sleep 1) @
               [Log Debug ''CameraController: autofocus routine timed out'']\<rparr>)"
      using assms c d False
      by (auto simp: run_autofocus_def Let_def af_wait_timeout emit_def logger_def
            split: option.splits)
    then show ?thesis using False by (intro exI [of _ 5]) simp
  qed
  from 1 2 3 show ?thesis by blast
qed

theorem run_autofocus_behaviour_witness:
  "af_enabled running_state \<and> camera running_state \<noteq> None \<and>
   dev_af (hw running_state) = Inr True \<and>
   run_autofocus running_state =
     Returned ()
       (running_state\<lparr>trace := [Cam_autofocus_cycle,
          Log Debug ''CameraController: autofocus routine completed successfully'']\<rparr>)"
proof -
  have a: "af_enabled running_state" "camera running_state \<noteq> None"
    "dev_af (hw running_state) = Inr True" "trace running_state = []"
    by (simp_all add: running_state_def good_device_def)
  from run_autofocus_behaviour [OF a(1)] a
  show ?thesis by auto
qed

text \<open>
  The claim as stated fails in its last part: after \<^verbatim>\<open>stop()\<close> the autofocus flag is
  still set and the session is gone, and the routine raises.
\<close>

theorem run_autofocus_counterexample:
  "af_enabled stopped_state \<and> run_autofocus stopped_state = Raised AttributeError stopped_state"
  by (simp add: run_autofocus_def stopped_state_def stop_def running_state_def and_then_def
        Let_def emit_def logger_def)

section \<open>The readers of the preview frame\<close>

lemma capture_frame_publishes:
  assumes "capture_frame s = Returned u s'"
  shows "\<exists>a. image_attr s' = Some a \<and> a < length (arrays s')"
  using assms
  by (auto simp: capture_frame_def capture_array_def and_then_def alloc_def Let_def emit_def
        logger_def split: option.splits list.splits sum.splits if_splits)

text \<open>
  Claim C9. With no frame published, \<^verbatim>\<open>get_md_image\<close> returns \<^verbatim>\<open>None\<close> and changes
  nothing, and \<^verbatim>\<open>get_image_binary\<close> raises (the encoder is handed \<^verbatim>\<open>None\<close>). With a
  frame published, \<^verbatim>\<open>get_md_image\<close> returns a reference to a new array, different from
  the reference the controller holds, with the contents of the live frame, and
  \<^verbatim>\<open>get_image_binary\<close> returns the encoding of these contents. Whatever the caller
  writes through the reference it got, the live frame and what a later reader gets are as
  before.
\<close>

theorem get_md_image_copy:
  "(image_attr s = None \<longrightarrow>
      get_md_image s = Returned None s \<and> get_image_binary s = Raised CvError s) \<and>
   (\<forall>a. image_attr s = Some a \<and> a < length (arrays s) \<longrightarrow>
      (\<exists>b s1. get_md_image s = Returned (Some b) s1 \<and> b \<noteq> a \<and> b < length (arrays s1) \<and>
         arrays s1 ! b = arrays s ! a \<and> arrays s1 ! a = arrays s ! a \<and>
         image_attr s1 = Some a \<and>
         get_image_binary s = Returned (Jpeg (arrays s ! a)) s1 \<and>
         (\<forall>g. image_attr (mutate b g s1) = Some a \<and>
              arrays (mutate b g s1) ! a = arrays s ! a \<and>
              (\<exists>c s2. get_md_image (mutate b g s1) = Returned (Some c) s2 \<and>
                      arrays s2 ! c = arrays s ! a))))"
proof -
  have none: "get_md_image s = Returned None s \<and> get_image_binary s = Raised CvError s"
    if "image_attr s = None"
    using that by (simp add: get_md_image_def get_image_binary_def and_then_def imencode_def)
  have some: "\<exists>b s1. get_md_image s = Returned (Some b) s1 \<and> b \<noteq> a \<and> b < length (arrays s1) \<and>
         arrays s1 ! b = arrays s ! a \<and> arrays s1 ! a = arrays s ! a \<and>
         image_attr s1 = Some a \<and>
         get_image_binary s = Returned (Jpeg (arrays s ! a)) s1 \<and>
         (\<forall>g. image_attr (mutate b g s1) = Some a \<and>
              arrays (mutate b g s1) ! a = arrays s ! a \<and>
              (\<exists>c s2. get_md_image (mutate b g s1) = Returned (Some c) s2 \<and>
                      arrays s2 ! c = arrays s ! a))"
    if h: "image_attr s = Some a \<and> a < length (arrays s)" for a
  proof -
    let ?b = "length (arrays s)"
    let ?s1 = "s\<lparr>arrays := arrays s @ [arrays s ! a]\<rparr>"
    have g: "get_md_image s = Returned (Some ?b) ?s1"
      using h by (simp add: get_md_image_def alloc_def)
    have m: "arrays (mutate ?b g ?s1) ! a = arrays s ! a"
      "image_attr (mutate ?b g ?s1) = Some a" for g
      using h by (simp_all add: mutate_def nth_append)
    have later: "\<exists>c s2. get_md_image (mutate ?b g ?s1) = Returned (Some c) s2 \<and>
                   arrays s2 ! c = arrays s ! a" for g
      using h by (simp add: get_md_image_def alloc_def mutate_def nth_append)
    have bin: "get_image_binary s = Returned (Jpeg (arrays s ! a)) ?s1"
      using h by (simp add: get_image_binary_def g and_then_def imencode_def)
    have f: "?b \<noteq> a" "?b < length (arrays ?s1)" "arrays ?s1 ! ?b = arrays s ! a"
      "arrays ?s1 ! a = arrays s ! a" "image_attr ?s1 = Some a"
      using h by (simp_all add: nth_append)
    from g f bin m later show ?thesis by blast
  qed
  from none some show ?thesis by blast
qed


theorem get_md_image_copy_witness:
  "image_attr headless_state = None \<and>
   get_md_image headless_state = Returned None headless_state \<and>
   get_image_binary headless_state = Raised CvError headless_state \<and>
   image_attr running_state = Some 1 \<and> 1 < length (arrays running_state) \<and>
   get_md_image running_state =
     Returned (Some 2) (running_state\<lparr>arrays := arrays running_state @ [Frame [1, 2, 3] True []]\<rparr>) \<and>
   get_image_binary running_state =
     Returned (Jpeg (Frame [1, 2, 3] True []))
       (running_state\<lparr>arrays := arrays running_state @ [Frame [1, 2, 3] True []]\<rparr>)"
proof -
  have a: "image_attr headless_state = None" "image_attr running_state = Some 1"
    "1 < length (arrays running_state)" "arrays running_state ! 1 = Frame [1, 2, 3] True []"
    by (simp_all add: headless_state_def running_state_def)
  have g: "get_md_image running_state =
     Returned (Some 2) (running_state\<lparr>arrays := arrays running_state @ [Frame [1, 2, 3] True []]\<rparr>)"
    by (simp add: get_md_image_def alloc_def running_state_def)
  from get_md_image_copy [of headless_state] get_md_image_copy [of running_state] a g
  show ?thesis by auto
qed

section \<open>The capture loop under faults\<close>

lemma run_iteration_catches:
  assumes "picamera_exists s" and "capture_frame s = Raised e s1" and "is_Exception e"
  shows "run_iteration s =
           (case initialise_picamera
                   (logger Error ''exception''
                      (logger Error ''CameraController: picamera error.'' s1)) of
              Returned _ s2 \<Rightarrow> Returned () (emit (Sleep (1 / 50)) s2)
            | Raised e' s2 \<Rightarrow> Raised (if e' = KeyboardInterrupt then AttributeError else e') s2)"
  using assms
  by (simp add: run_iteration_def Let_def and_then_def split: outcome.splits)

lemma run_iteration_publishes:
  assumes "picamera_exists s" and "capture_frame s = Returned u s1"
  shows "run_iteration s = Returned u s1"
  using assms by (simp add: run_iteration_def Let_def)

lemmas loop_defs = run_iteration_def capture_frame_def capture_array_def initialise_picamera_def
  open_camera_def configure_camera_def apply_exposure_mode_def prepare_md_stream_def
  setup_autofocus_def run_autofocus_def set_sharpness_def is_stopped_def is_Exception_def
  unplugged_device_def glitching_device_def interrupted_device_def alloc_def cvtColor_def
  putText_def py_eq_def py_int_def err_bind_def round_double_50000

text \<open>
  A fault while a frame is pulled is caught and logged, and the session is opened again;
  when that succeeds the loop goes on.
\<close>

lemma run_recovers_from_one_fault:
  "run_error (run [Device glitching_device] running_state) = None \<and>
   \<not> is_stopped (run_state (run [Device glitching_device] running_state)) \<and>
   camera (run_state (run [Device glitching_device] running_state)) \<noteq> None \<and>
   dev_lores (hw (run_state (run [Device glitching_device] running_state))) = [Inr (Frame [1, 2, 3] False [])]"
  by (simp add: loop_defs eval_defs af_wait.simps)


text \<open>
  Claim C5 does not hold of the code. The handler of the fault calls
  \<^verbatim>\<open>initialise_picamera\<close> unprotected: when the camera is unplugged, pulling the frame
  fails, opening the new session fails as well, and this second exception leaves
  \<^verbatim>\<open>run\<close>, although nobody has called \<^verbatim>\<open>stop()\<close>; the frames that a working camera
  would deliver afterwards are never pulled. An interrupt while a frame is pulled ends the
  loop too, with the \<^verbatim>\<open>AttributeError\<close> of \<^verbatim>\<open>self.logger.i\<close>.
\<close>

theorem run_ends_when_reinitialisation_fails:
  "run_error (run [Device unplugged_device, Device good_device] running_state) = Some HardwareError \<and>
   \<not> is_stopped (run_state (run [Device unplugged_device, Device good_device] running_state)) \<and>
   run_error (run [Device interrupted_device, Device good_device] running_state) = Some AttributeError \<and>
   \<not> is_stopped (run_state (run [Device interrupted_device, Device good_device] running_state))"
  by (simp add: loop_defs eval_defs)


end
